theory Spec2Isabelle
  imports
    Main
    "HOL-Library.Sublist"
    "HOL-Library.AList"
    "HOL-Library.Char_ord"
    "HOL-Library.List_Lexorder"
    "HOL-Library.Product_Lexorder"
begin

section \<open>Strings\<close>

text \<open>
  Request texts, ids and messages are ASCII strings. \<open>lower\<close> is \<^verbatim>\<open>str.lower()\<close>,
  \<open>strip\<close> is \<^verbatim>\<open>str.strip()\<close> (the characters Python's \<^verbatim>\<open>isspace\<close> accepts
  below 128), \<open>join\<close> is \<^verbatim>\<open>sep.join(xs)\<close>, and the substring test
  \<^verbatim>\<open>k in text\<close> is \<^const>\<open>sublist\<close>.
\<close>

definition lower_char :: "char \<Rightarrow> char" where
  "lower_char c =
     (case map_of (zip ''ABCDEFGHIJKLMNOPQRSTUVWXYZ'' ''abcdefghijklmnopqrstuvwxyz'') c of
        Some l \<Rightarrow> l
      | None \<Rightarrow> c)"

definition lower :: "string \<Rightarrow> string" where
  "lower s = map lower_char s"

definition isspace :: "char \<Rightarrow> bool" where
  "isspace c = (c \<in> set [CHR 0x09, CHR 0x0A, CHR 0x0B, CHR 0x0C, CHR 0x0D,
                           CHR 0x1C, CHR 0x1D, CHR 0x1E, CHR 0x1F, CHR 0x20])"

definition strip :: "string \<Rightarrow> string" where
  "strip s = rev (dropWhile isspace (rev (dropWhile isspace s)))"

fun join :: "string \<Rightarrow> string list \<Rightarrow> string" where
  "join sep [] = []"
| "join sep [x] = x"
| "join sep (x # y # ys) = x @ sep @ join sep (y # ys)"

definition startswith :: "string \<Rightarrow> string \<Rightarrow> bool" where
  "startswith s p = prefix p s"

definition quoted :: "string \<Rightarrow> string" where
  "quoted s = [CHR 0x27] @ s @ [CHR 0x27]"

section \<open>Logging collaborator\<close>

text \<open>
  Every call to the logger is one record appended to a log: the standard logger's levels
  (\<^verbatim>\<open>get_logger\<close>), and the file helpers \<^verbatim>\<open>log_event\<close> and \<^verbatim>\<open>log_action\<close>.
\<close>

datatype log_record =
    Log_debug string
  | Log_info string
  | Log_warning string
  | Log_error string
  | Log_event string

type_synonym log = "log_record list"

definition log_event :: "string \<Rightarrow> log \<Rightarrow> log" where
  "log_event message lg = lg @ [Log_event message]"

definition log_action :: "string \<Rightarrow> string \<Rightarrow> string \<Rightarrow> log \<Rightarrow> log" where
  "log_action action_name status info lg =
     (let msg = ''ACTION '' @ status @ '': '' @ action_name;
          msg = (if info \<noteq> [] then msg @ '' | '' @ info else msg)
      in log_event msg lg)"

section \<open>Actions and the registry (core/actions.py)\<close>

text \<open>
  A handler takes no argument, acts on the machine (the world \<open>'w\<close>) and either raises
  an exception (\<open>Inl\<close> of its message), returns \<^verbatim>\<open>None\<close> (\<open>Inr None\<close>) or
  returns a string.
\<close>

type_synonym 'w handler = "'w \<Rightarrow> (string + string option) \<times> 'w"

record 'w Action =
  action_id :: string
  name :: string
  description :: string
  group_tag :: string
  dangerous :: bool
  func :: "'w handler"

text \<open>
  The registry \<^verbatim>\<open>_ACTIONS\<close> is a Python dict: keys in insertion order, a store under
  an existing key keeps the key's position. \<^const>\<open>AList.update\<close> is that store.
\<close>

type_synonym 'w catalog = "(string \<times> 'w Action) list"

type_synonym 'w registry = "'w catalog \<times> log"

definition has_key :: "'w catalog \<Rightarrow> string \<Rightarrow> bool" where
  "has_key acts aid = (map_of acts aid \<noteq> None)"

definition register_action ::
  "string \<Rightarrow> string \<Rightarrow> string \<Rightarrow> string \<Rightarrow> 'w handler \<Rightarrow> bool \<Rightarrow> 'w registry
     \<Rightarrow> 'w Action \<times> 'w registry" where
  "register_action aid nm descr grp fn dang reg =
     (let (acts, lg) = reg;
          lg = (if has_key acts aid
                then lg @ [Log_warning (''Overwriting existing action with id '' @ quoted aid)]
                else lg);
          action = \<lparr>action_id = aid, name = nm, description = descr, group_tag = grp,
                    dangerous = dang, func = fn\<rparr>;
          acts = AList.update aid action acts;
          lg = lg @ [Log_debug (''Registered action '' @ quoted aid @ '' ('' @ nm @ '')'')]
      in (action, (acts, lg)))"

definition get_action_by_id :: "'w catalog \<Rightarrow> string \<Rightarrow> 'w Action option" where
  "get_action_by_id acts aid = map_of acts aid"

definition get_actions_by_group :: "'w catalog \<Rightarrow> string \<Rightarrow> 'w Action list" where
  "get_actions_by_group acts grp =
     sort_key (\<lambda>a. lower (name a)) (filter (\<lambda>a. group_tag a = grp) (map snd acts))"

definition list_actions :: "'w catalog \<Rightarrow> 'w Action list" where
  "list_actions acts = sort_key (\<lambda>a. (group_tag a, lower (name a))) (map snd acts)"

subsection \<open>Built-in actions\<close>

text \<open>
  \<^verbatim>\<open>system_tools\<close> and \<^verbatim>\<open>privacy_tools\<close> are modules that may have failed to import
  (\<open>None\<close>) and otherwise map attribute names to functions.
\<close>

type_synonym 'w py_module = "(string \<rightharpoonup> 'w handler) option"

definition hasattr :: "'w py_module \<Rightarrow> string \<Rightarrow> bool" where
  "hasattr m attr = (case m of None \<Rightarrow> False | Some attrs \<Rightarrow> attrs attr \<noteq> None)"

definition getattr :: "'w py_module \<Rightarrow> string \<Rightarrow> 'w handler" where
  "getattr m attr = (case m of None \<Rightarrow> (\<lambda>w. (Inl ''AttributeError'', w))
                     | Some attrs \<Rightarrow> (case attrs attr of None \<Rightarrow> (\<lambda>w. (Inl ''AttributeError'', w))
                                      | Some h \<Rightarrow> h))"

text \<open>The closures that guard one tool: raise when it is missing, else call it.\<close>

definition tool_or_raise :: "'w py_module \<Rightarrow> string \<Rightarrow> string \<Rightarrow> 'w handler" where
  "tool_or_raise m attr msg w =
     (if \<not> hasattr m attr then (Inl msg, w) else getattr m attr w)"

definition cleanup_temp :: "'w py_module \<Rightarrow> 'w handler" where
  "cleanup_temp st = tool_or_raise st ''cleanup_temp_files'' ''Temp cleanup tool is not available.''"

definition cleanup_prefetch :: "'w py_module \<Rightarrow> 'w handler" where
  "cleanup_prefetch st =
     tool_or_raise st ''cleanup_prefetch'' ''Prefetch cleanup tool is not available.''"

definition cleanup_windows_update_cache :: "'w py_module \<Rightarrow> 'w handler" where
  "cleanup_windows_update_cache st =
     tool_or_raise st ''cleanup_windows_update_cache''
       ''Windows Update cache cleanup is not available.''"

text \<open>
  The loop of the two aggregate actions: a missing tool is passed over, a truthy result
  is appended, an exception is appended as text, and the loop goes on.
\<close>

fun run_tools :: "'w py_module \<Rightarrow> string list \<Rightarrow> string list \<Rightarrow> 'w \<Rightarrow> string list \<times> 'w" where
  "run_tools st [] messages w = (messages, w)"
| "run_tools st (func_name # rest) messages w =
     (if \<not> hasattr st func_name then run_tools st rest messages w
      else case getattr st func_name w of
             (Inr None, w') \<Rightarrow> run_tools st rest messages w'
           | (Inr (Some result), w') \<Rightarrow>
               run_tools st rest (if result \<noteq> [] then messages @ [result] else messages) w'
           | (Inl e, w') \<Rightarrow> run_tools st rest (messages @ [func_name @ '' failed: '' @ e]) w')"

definition cleanup_recommended :: "'w py_module \<Rightarrow> 'w handler" where
  "cleanup_recommended st w =
     (let (messages, w') =
            run_tools st [''cleanup_temp_files'', ''cleanup_prefetch'',
                          ''cleanup_windows_update_cache''] [] w
      in if messages \<noteq> [] then (Inr (Some (join [CHR 0x0A] messages)), w')
         else (Inr (Some ''Cleanup completed.''), w'))"

definition run_sfc :: "'w py_module \<Rightarrow> 'w handler" where
  "run_sfc st = tool_or_raise st ''run_sfc_scan'' ''SFC scan tool is not available.''"

definition run_dism :: "'w py_module \<Rightarrow> 'w handler" where
  "run_dism st =
     tool_or_raise st ''run_dism_health_scan'' ''DISM health scan tool is not available.''"

definition run_chkdsk :: "'w py_module \<Rightarrow> 'w handler" where
  "run_chkdsk st =
     tool_or_raise st ''schedule_chkdsk'' ''CHKDSK scheduling tool is not available.''"

definition health_full :: "'w py_module \<Rightarrow> 'w handler" where
  "health_full st w =
     (let (messages, w') = run_tools st [''run_sfc_scan'', ''run_dism_health_scan''] [] w
      in if messages \<noteq> [] then (Inr (Some (join [CHR 0x0A] messages)), w')
         else (Inr (Some ''Health checks completed.''), w'))"

definition network_reset :: "'w py_module \<Rightarrow> 'w handler" where
  "network_reset st =
     tool_or_raise st ''reset_network_stack'' ''Network reset tool is not available.''"

definition open_task_manager :: "'w py_module \<Rightarrow> 'w handler" where
  "open_task_manager st =
     tool_or_raise st ''open_task_manager'' ''Task Manager tool is not available.''"

definition open_device_manager :: "'w py_module \<Rightarrow> 'w handler" where
  "open_device_manager st =
     tool_or_raise st ''open_device_manager'' ''Device Manager tool is not available.''"

definition open_services :: "'w py_module \<Rightarrow> 'w handler" where
  "open_services st =
     tool_or_raise st ''open_services_console'' ''Services console tool is not available.''"

definition open_system_restore :: "'w py_module \<Rightarrow> 'w handler" where
  "open_system_restore st =
     tool_or_raise st ''open_system_restore'' ''System Restore tool is not available.''"

definition privacy_recommended :: "'w py_module \<Rightarrow> 'w handler" where
  "privacy_recommended pt =
     tool_or_raise pt ''apply_recommended_privacy_profile''
       ''Recommended privacy profile is not available.''"

definition privacy_strict :: "'w py_module \<Rightarrow> 'w handler" where
  "privacy_strict pt =
     tool_or_raise pt ''apply_strict_privacy_profile'' ''Strict privacy profile is not available.''"

definition privacy_restore_defaults :: "'w py_module \<Rightarrow> 'w handler" where
  "privacy_restore_defaults pt =
     tool_or_raise pt ''restore_privacy_defaults'' ''Privacy defaults restore is not available.''"

text \<open>One \<^verbatim>\<open>register_action(...)\<close> statement whose returned action is dropped.\<close>

definition reg ::
  "string \<Rightarrow> string \<Rightarrow> string \<Rightarrow> string \<Rightarrow> 'w handler \<Rightarrow> bool \<Rightarrow> 'w registry \<Rightarrow> 'w registry" where
  "reg aid nm descr grp fn dang r = snd (register_action aid nm descr grp fn dang r)"

definition import_warnings :: "'w py_module \<Rightarrow> 'w py_module \<Rightarrow> 'w registry \<Rightarrow> 'w registry" where
  "import_warnings st pt r =
     (let (acts, lg) = r;
          lg = (if st = None then lg @ [Log_warning ''system_tools module not available''] else lg);
          lg = (if pt = None then lg @ [Log_warning ''privacy_tools module not available''] else lg)
      in (acts, lg))"

definition register_builtin_actions ::
  "'w py_module \<Rightarrow> 'w py_module \<Rightarrow> 'w registry \<Rightarrow> 'w registry" where
  "register_builtin_actions st pt r =
    (reg ''privacy_restore_defaults'' ''Restore Privacy Defaults''
       ''Restores Windows privacy-related settings to their default values.''
       ''privacy'' (privacy_restore_defaults pt) True
    (reg ''privacy_strict'' ''Strict Privacy Profile''
       ''Applies a strict set of privacy tweaks, potentially disabling some Windows features.''
       ''privacy'' (privacy_strict pt) True
    (reg ''privacy_recommended'' ''Recommended Privacy Profile''
       ''Applies a balanced set of privacy tweaks recommended for most users.''
       ''privacy'' (privacy_recommended pt) True
    (reg ''tools_system_restore'' ''Open System Restore''
       ''Opens the System Restore configuration UI.''
       ''tools'' (open_system_restore st) False
    (reg ''tools_services'' ''Open Services''
       ''Opens the Windows Services management console.''
       ''tools'' (open_services st) False
    (reg ''tools_device_manager'' ''Open Device Manager''
       ''Opens Windows Device Manager.''
       ''tools'' (open_device_manager st) False
    (reg ''tools_task_manager'' ''Open Task Manager''
       ''Opens Windows Task Manager.''
       ''tools'' (open_task_manager st) False
    (reg ''network_reset'' ''Reset Network Stack''
       ''Resets Winsock, IP stack, and flushes DNS to fix common network issues.''
       ''network'' (network_reset st) True
    (reg ''health_full'' ''Full Health Check''
       ''Runs SFC and DISM to verify system health. You may still choose to schedule CHKDSK.''
       ''health'' (health_full st) True
    (reg ''health_chkdsk'' ''CHKDSK (Next Boot)''
       ''Schedules CHKDSK on the system drive for the next reboot.''
       ''health'' (run_chkdsk st) True
    (reg ''health_dism'' ''DISM Health Scan''
       ''Runs DISM to check and repair the Windows component store.''
       ''health'' (run_dism st) True
    (reg ''health_sfc'' ''System File Checker (SFC)''
       (''Runs '' @ quoted ''sfc /scannow'' @ '' to check and repair system files.'')
       ''health'' (run_sfc st) True
    (reg ''cleanup_recommended'' ''Recommended Cleanup''
       ''Runs a recommended set of cleanup operations: temp, prefetch, and update cache.''
       ''cleanup'' (cleanup_recommended st) True
    (reg ''cleanup_windows_update_cache'' ''Clean Windows Update Cache''
       ''Deletes and resets Windows Update cache to fix update issues.''
       ''cleanup'' (cleanup_windows_update_cache st) True
    (reg ''cleanup_prefetch'' ''Clean Prefetch Folder''
       ''Cleans the Windows Prefetch folder to clear stale launch data.''
       ''cleanup'' (cleanup_prefetch st) False
    (reg ''cleanup_temp'' ''Clean Temp Files''
       ''Deletes temporary files from standard Windows temp locations.''
       ''cleanup'' (cleanup_temp st) False
    (import_warnings st pt r)))))))))))))))))"

subsection \<open>Plugin loading\<close>

text \<open>
  A plugin sees the registry only through the facade, whose one operation is
  \<^verbatim>\<open>register_action\<close>. What its \<^verbatim>\<open>register()\<close> does is therefore the calls it makes,
  in order, and how it ends: by returning (\<open>None\<close>) or by raising (\<open>Some\<close> of the
  message). Importing a module may raise; an imported module may have no callable
  \<^verbatim>\<open>register\<close>.
\<close>

type_synonym 'w reg_call = "string \<times> string \<times> string \<times> string \<times> 'w handler \<times> bool"

datatype 'w plugin_register = No_register | Register "'w reg_call list" "string option"

record 'w plugin_module =
  mod_name :: string
  imported :: "string + 'w plugin_register"

datatype 'w plugins_package =
    Package_not_found
  | Package_import_failed string
  | Package "'w plugin_module list"

definition logged :: "log_record \<Rightarrow> 'w registry \<Rightarrow> 'w registry" where
  "logged entry r = (fst r, snd r @ [entry])"

definition facade_register_action :: "'w reg_call \<Rightarrow> 'w registry \<Rightarrow> 'w registry" where
  "facade_register_action c r =
     (case c of (aid, nm, descr, grp, fn, dang) \<Rightarrow> snd (register_action aid nm descr grp fn dang r))"

fun run_register :: "'w reg_call list \<Rightarrow> 'w registry \<Rightarrow> 'w registry" where
  "run_register [] r = r"
| "run_register (c # cs) r = run_register cs (facade_register_action c r)"

fun load_plugin_modules :: "string \<Rightarrow> 'w plugin_module list \<Rightarrow> 'w registry \<Rightarrow> 'w registry" where
  "load_plugin_modules package_name [] r = r"
| "load_plugin_modules package_name (m # ms) r =
     (if startswith (mod_name m) ''_'' then load_plugin_modules package_name ms r
      else
        let full_name = package_name @ ''.'' @ mod_name m in
        case imported m of
          Inl e \<Rightarrow>
            load_plugin_modules package_name ms
              (logged (Log_warning (''Failed to import plugin module '' @ quoted full_name
                                      @ '': '' @ e)) r)
        | Inr No_register \<Rightarrow> load_plugin_modules package_name ms r
        | Inr (Register calls raised) \<Rightarrow>
            (let r = run_register calls r in
             case raised of
               None \<Rightarrow>
                 load_plugin_modules package_name ms
                   (logged (Log_info (''Plugin '' @ quoted full_name
                                        @ '' registered successfully.'')) r)
             | Some e \<Rightarrow>
                 load_plugin_modules package_name ms
                   (logged (Log_warning (''Plugin '' @ quoted full_name
                                           @ '' register() failed: '' @ e)) r)))"

definition load_plugins ::
  "string option \<Rightarrow> 'w plugins_package \<Rightarrow> 'w registry \<Rightarrow> 'w registry" where
  "load_plugins package_name pkg r =
     (case package_name of
        None \<Rightarrow> logged (Log_debug ''Could not determine plugins package name.'') r
      | Some pn \<Rightarrow>
          (case pkg of
             Package_not_found \<Rightarrow>
               logged (Log_debug (''Plugins package '' @ quoted pn
                                    @ '' not found (which is fine).'')) r
           | Package_import_failed e \<Rightarrow>
               logged (Log_warning (''Failed to import plugins package '' @ quoted pn
                                      @ '': '' @ e)) r
           | Package ms \<Rightarrow> load_plugin_modules pn ms r))"

text \<open>
  The one plugin of the repository, \<^verbatim>\<open>plugins/example_cleanup.py\<close>: its
  \<^verbatim>\<open>register(actions)\<close> has no parameter called \<^verbatim>\<open>registry\<close>, so the call
  \<^verbatim>\<open>register_fn(registry=...)\<close> raises before the body runs.
\<close>

definition example_cleanup :: "'w plugin_module" where
  "example_cleanup =
     \<lparr>mod_name = ''example_cleanup'',
      imported = Inr (Register []
        (Some (''register() got an unexpected keyword argument '' @ quoted ''registry'')))\<rparr>"

text \<open>Module initialisation: built-ins first, then plugins; \<^verbatim>\<open>ACTIONS = _ACTIONS\<close>.\<close>

definition initial_registry :: "'w py_module \<Rightarrow> 'w py_module \<Rightarrow> 'w registry" where
  "initial_registry st pt =
     load_plugins (Some ''ai_system_utility.plugins'') (Package [example_cleanup])
       (register_builtin_actions st pt ([], []))"

definition ACTIONS :: "'w py_module \<Rightarrow> 'w py_module \<Rightarrow> 'w catalog" where
  "ACTIONS st pt = fst (initial_registry st pt)"

section \<open>Request routing (core/ai_interpreter.py)\<close>

definition any_in :: "string list \<Rightarrow> string \<Rightarrow> bool" where
  "any_in ks text = list_ex (\<lambda>k. sublist k text) ks"

text \<open>
  The list \<^verbatim>\<open>selected\<close> is built by one block of tests per group, each appending
  to it, and a last block for a list still empty.
\<close>

definition cleanup_rule :: "string \<Rightarrow> string list" where
  "cleanup_rule text =
     (if any_in [''cleanup'', ''clean up'', ''clean my pc'', ''temp'', ''cache'',
                 ''junk'', ''space''] text
      then [''cleanup_recommended'']
      else if sublist ''prefetch'' text then [''cleanup_prefetch'']
      else if sublist ''windows update'' text \<and> sublist ''cache'' text
      then [''cleanup_windows_update_cache'']
      else if sublist ''temp'' text \<or> sublist ''temporary'' text then [''cleanup_temp'']
      else [])"

definition health_rules :: "string \<Rightarrow> string list" where
  "health_rules text =
     (if sublist ''sfc'' text \<or> sublist ''system file checker'' text
      then [''health_sfc''] else [])
     @ (if sublist ''dism'' text \<or> sublist ''component store'' text
        then [''health_dism''] else [])
     @ (if sublist ''chkdsk'' text \<or> sublist ''disk check'' text
        then [''health_chkdsk''] else [])
     @ (if any_in [''health'', ''corrupt'', ''integrity'', ''fix system files''] text
        then [''health_full''] else [])"

definition network_rule :: "string \<Rightarrow> string list" where
  "network_rule text =
     (if any_in [''no internet'', ''network'', ''wifi'', ''ethernet'', ''dns'',
                 ''winsock'', ''reset network''] text
      then [''network_reset''] else [])"

definition tools_rules :: "string \<Rightarrow> string list" where
  "tools_rules text =
     (if sublist ''task manager'' text then [''tools_task_manager''] else [])
     @ (if sublist ''device manager'' text then [''tools_device_manager''] else [])
     @ (if sublist ''services'' text then [''tools_services''] else [])
     @ (if sublist ''system restore'' text \<or> sublist ''restore point'' text
        then [''tools_system_restore''] else [])"

definition privacy_rule :: "string \<Rightarrow> string list" where
  "privacy_rule text =
     (if sublist ''privacy'' text \<and> sublist ''strict'' text then [''privacy_strict'']
      else if sublist ''privacy'' text \<and> sublist ''default'' text
      then [''privacy_restore_defaults'']
      else if sublist ''privacy'' text then [''privacy_recommended'']
      else if sublist ''telemetry'' text \<or> sublist ''tracking'' text
      then [''privacy_recommended'']
      else [])"

definition generic_rule :: "string \<Rightarrow> string list" where
  "generic_rule text =
     (if sublist ''clean'' text then [''cleanup_recommended'']
      else if sublist ''fix'' text \<or> sublist ''repair'' text then [''health_full'']
      else [])"

definition fallback_selected :: "string \<Rightarrow> string list" where
  "fallback_selected request =
     (let text = lower request;
          selected = cleanup_rule text @ health_rules text @ network_rule text
                       @ tools_rules text @ privacy_rule text
      in if selected = [] then generic_rule text else selected)"

text \<open>The closing loop: keep an id that is registered and not yet seen.\<close>

fun dedup_valid :: "'w catalog \<Rightarrow> string list \<Rightarrow> string set \<Rightarrow> string list \<Rightarrow> string list" where
  "dedup_valid acts [] seen result = result"
| "dedup_valid acts (aid # rest) seen result =
     (if has_key acts aid \<and> aid \<notin> seen
      then dedup_valid acts rest (insert aid seen) (result @ [aid])
      else dedup_valid acts rest seen result)"

definition fallback_choose_action_ids :: "'w catalog \<Rightarrow> string \<Rightarrow> string list" where
  "fallback_choose_action_ids acts request = dedup_valid acts (fallback_selected request) {} []"

text \<open>
  What the remote model did for this request is an input: the strategy is not
  configured, or something inside the \<^verbatim>\<open>try\<close> raised (the call, or
  \<^verbatim>\<open>json.loads\<close>), or \<^verbatim>\<open>json.loads\<close> returned a value.
\<close>

datatype json =
    JNull
  | JBool bool
  | JNumber int
  | JString string
  | JArray "json list"
  | JObject "(string \<times> json) list"

datatype gemini = Not_configured | Gemini_raised string | Gemini_data json

fun valid_ids :: "'w catalog \<Rightarrow> json list \<Rightarrow> string list" where
  "valid_ids acts [] = []"
| "valid_ids acts (JString aid # rest) =
     (if has_key acts aid then aid # valid_ids acts rest else valid_ids acts rest)"
| "valid_ids acts (other # rest) = valid_ids acts rest"

definition gemini_choose_action_ids :: "'w catalog \<Rightarrow> gemini \<Rightarrow> log \<Rightarrow> string list \<times> log" where
  "gemini_choose_action_ids acts g lg =
     (case g of
        Not_configured \<Rightarrow> ([], lg)
      | Gemini_raised e \<Rightarrow> ([], log_event (''Gemini action selection failed: '' @ e) lg)
      | Gemini_data data \<Rightarrow>
          (case data of JArray xs \<Rightarrow> (valid_ids acts xs, lg) | other \<Rightarrow> ([], lg)))"

fun get_actions :: "'w catalog \<Rightarrow> string list \<Rightarrow> 'w Action list" where
  "get_actions acts [] = []"
| "get_actions acts (aid # rest) =
     (case map_of acts aid of
        Some action \<Rightarrow> action # get_actions acts rest
      | None \<Rightarrow> get_actions acts rest)"

definition choose_actions_for_request ::
  "'w catalog \<Rightarrow> gemini \<Rightarrow> string \<Rightarrow> log \<Rightarrow> 'w Action list \<times> log" where
  "choose_actions_for_request acts g request lg =
     (let request = strip request in
      if request = [] then ([], lg)
      else
        let (action_ids, lg) = gemini_choose_action_ids acts g lg;
            action_ids = (if action_ids = [] then fallback_choose_action_ids acts request
                          else action_ids);
            actions = get_actions acts action_ids;
            lg = (if actions \<noteq> []
                  then log_event (''choose_actions_for_request: '' @ quoted request @ '' -> [''
                                    @ join '', '' (map (\<lambda>a. quoted (action_id a)) actions) @ '']'') lg
                  else log_event (''choose_actions_for_request: '' @ quoted request
                                    @ '' -> no actions'') lg)
        in (actions, lg))"

text \<open>The loop of \<^verbatim>\<open>interpret_command\<close>: no step is skipped, none asks anything.\<close>

fun run_actions ::
  "'w Action list \<Rightarrow> string list \<Rightarrow> log \<Rightarrow> 'w \<Rightarrow> string list \<times> log \<times> 'w" where
  "run_actions [] results lg w = (results, lg, w)"
| "run_actions (action # rest) results lg w =
     (let lg = log_action (name action) ''START'' [] lg in
      case func action w of
        (Inr None, w') \<Rightarrow>
          run_actions rest (results @ [name action @ '': completed.''])
            (log_action (name action) ''SUCCESS'' [] lg) w'
      | (Inr (Some result), w') \<Rightarrow>
          run_actions rest
            (if result \<noteq> [] then results @ [name action @ '': '' @ result]
             else results @ [name action @ '': completed.''])
            (log_action (name action) ''SUCCESS'' [] lg) w'
      | (Inl e, w') \<Rightarrow>
          run_actions rest (results @ [name action @ '': ERROR - '' @ e])
            (log_action (name action) ''ERROR'' e lg) w')"

definition interpret_command ::
  "'w catalog \<Rightarrow> gemini \<Rightarrow> string \<Rightarrow> log \<Rightarrow> 'w \<Rightarrow> string \<times> log \<times> 'w" where
  "interpret_command acts g request lg w =
     (let (actions, lg) = choose_actions_for_request acts g request lg in
      if actions = []
      then (''I couldn'' @ [CHR 0x27] @ ''t match that to any known action yet. ''
              @ ''Try rephrasing or be more specific.'',
            log_event (''interpret_command: no actions for '' @ quoted request) lg, w)
      else
        let (results, lg, w) = run_actions actions [] lg w
        in (join [CHR 0x0A] results, lg, w))"

section \<open>The free-text box of the GUI (gui.py)\<close>

definition on_run_command ::
  "'w catalog \<Rightarrow> gemini \<Rightarrow> string \<Rightarrow> log \<Rightarrow> 'w \<Rightarrow> log \<times> 'w" where
  "on_run_command acts g command_var lg w =
     (let text = strip command_var in
      if text = [] then (lg, w)
      else
        let lg = lg @ [Log_info (''> '' @ text)];
            (result, lg, w) = interpret_command acts g text lg w;
            lg = (if result \<noteq> [] then lg @ [Log_info result] else lg)
        in (lg, w))"

section \<open>The keyword interpreter of the CLI (main.py)\<close>

text \<open>
  Every branch of \<^verbatim>\<open>interpret_command_keyword\<close> returns \<^verbatim>\<open>ACTIONS.get\<close> of a
  literal id, or \<^verbatim>\<open>None\<close> at the end: \<open>keyword_action_id\<close> is the id the branch taken
  looks up.
\<close>

definition keyword_action_id :: "string \<Rightarrow> string option" where
  "keyword_action_id text =
     (let t = lower text in
      if sublist ''sfc'' t \<or> sublist ''system file'' t then Some ''run_sfc''
      else if sublist ''dism'' t \<or> sublist ''restore health'' t \<or> sublist ''image health'' t
      then Some ''run_dism_health_restore''
      else if sublist ''chkdsk'' t \<or> sublist ''check disk'' t \<or> sublist ''disk check'' t
      then Some ''run_chkdsk''
      else if sublist ''clean temp'' t \<or> sublist ''temp files'' t \<or> sublist ''temporary files'' t
      then Some ''clean_temp''
      else if sublist ''prefetch'' t then Some ''clean_prefetch''
      else if sublist ''software distribution'' t \<or> sublist ''windows update cache'' t
      then Some ''clean_software_distribution''
      else if sublist ''advanced'' t \<and> sublist ''network'' t \<and> sublist ''reset'' t
      then Some ''network_reset_advanced''
      else if sublist ''network'' t \<and> sublist ''reset'' t then Some ''network_reset_basic''
      else if sublist ''task manager'' t then Some ''open_task_manager''
      else if sublist ''device manager'' t then Some ''open_device_manager''
      else if sublist ''services'' t then Some ''open_services''
      else if sublist ''system restore'' t \<or> sublist ''restore point'' t
      then Some ''open_system_restore''
      else if sublist ''privacy'' t \<or> sublist ''telemetry'' t \<or> sublist ''tracking'' t
      then (if sublist ''strict'' t \<or> sublist ''lock down'' t \<or> sublist ''lockdown'' t
               \<or> sublist ''maximum'' t \<or> sublist ''paranoid'' t
            then Some ''privacy_strict''
            else if sublist ''restore'' t \<or> sublist ''default'' t \<or> sublist ''defaults'' t
                    \<or> sublist ''undo'' t
            then Some ''privacy_restore_defaults''
            else Some ''privacy_recommended'')
      else None)"

definition interpret_command_keyword :: "'w catalog \<Rightarrow> string \<Rightarrow> 'w Action option" where
  "interpret_command_keyword acts text =
     (case keyword_action_id text of None \<Rightarrow> None | Some aid \<Rightarrow> map_of acts aid)"

section \<open>Privacy profiles (core/privacy_tools.py)\<close>

text \<open>
  The Windows registry is a state \<open>'r\<close> that only \<^verbatim>\<open>winreg\<close> reads and writes, and
  the calls of \<^verbatim>\<open>winreg\<close> are parameters: a query (open the key, read the value) finds
  a number, finds nothing, or fails; a write (create the key, set the value) and a delete
  either succeed or fail, and leave some registry behind in both cases. Calls to the
  logger are left out of this part: they neither read nor change the registry or the
  backup.
\<close>

type_synonym reg_key = "int \<times> string \<times> string"

record RegSetting =
  root :: int
  path :: string
  value_name :: string
  dword_value :: int
  value_type :: int

datatype query_result = Found int | File_not_found | Query_failed string

datatype 'r delete_result = Deleted 'r | Value_not_found 'r | Delete_failed string 'r

record 'r winreg =
  query_value :: "'r \<Rightarrow> reg_key \<Rightarrow> query_result"
  set_value :: "'r \<Rightarrow> reg_key \<Rightarrow> int \<Rightarrow> int \<Rightarrow> string option \<times> 'r"
  delete_value :: "'r \<Rightarrow> reg_key \<Rightarrow> 'r delete_result"

definition HKEY_CURRENT_USER :: int where
  "HKEY_CURRENT_USER = 0x80000001"

definition HKEY_LOCAL_MACHINE :: int where
  "HKEY_LOCAL_MACHINE = 0x80000002"

definition REG_SZ :: int where
  "REG_SZ = 1"

definition REG_DWORD :: int where
  "REG_DWORD = 4"

text \<open>The process-wide state: the registry and the dict \<^verbatim>\<open>_BACKUP\<close>.\<close>

record 'r privacy_state =
  winreg_state :: 'r
  BACKUP :: "(reg_key \<times> int option) list"

text \<open>Decimal text of a number, and of \<^verbatim>\<open>None\<close>, as an f-string prints them.\<close>

fun str_nat :: "nat \<Rightarrow> string" where
  "str_nat n =
     (if n < 10 then [char_of (48 + n)]
      else str_nat (n div 10) @ [char_of (48 + n mod 10)])"

definition str_int :: "int \<Rightarrow> string" where
  "str_int i = (if i < 0 then ''-'' @ str_nat (nat (- i)) else str_nat (nat i))"

definition str_opt_int :: "int option \<Rightarrow> string" where
  "str_opt_int v = (case v of None \<Rightarrow> ''None'' | Some i \<Rightarrow> str_int i)"

definition arrow :: string where
  "arrow = [CHR 0x20, CHR 0xE2, CHR 0x86, CHR 0x92, CHR 0x20]"

definition value_path :: "string \<Rightarrow> string \<Rightarrow> string" where
  "value_path p n = p @ [CHR 0x5C] @ n"

definition read_reg_value :: "'r winreg \<Rightarrow> 'r \<Rightarrow> reg_key \<Rightarrow> int option" where
  "read_reg_value api r key =
     (case query_value api r key of
        Found v \<Rightarrow> Some v
      | File_not_found \<Rightarrow> None
      | Query_failed e \<Rightarrow> None)"

definition write_reg_value ::
  "'r winreg \<Rightarrow> 'r \<Rightarrow> reg_key \<Rightarrow> int \<Rightarrow> int \<Rightarrow> string option \<times> 'r" where
  "write_reg_value api r key v vt =
     (case set_value api r key v vt of
        (None, r') \<Rightarrow> (None, r')
      | (Some e, r') \<Rightarrow>
          (Some (''Failed to write registry: '' @ value_path (fst (snd key)) (snd (snd key))
                   @ arrow @ str_int v @ '' ('' @ e @ '')''), r'))"

definition setting_key :: "RegSetting \<Rightarrow> reg_key" where
  "setting_key setting = (root setting, path setting, value_name setting)"

definition backup_setting :: "'r winreg \<Rightarrow> RegSetting \<Rightarrow> 'r privacy_state \<Rightarrow> 'r privacy_state" where
  "backup_setting api setting s =
     (let key = setting_key setting in
      if map_of (BACKUP s) key \<noteq> None then s
      else
        let original = read_reg_value api (winreg_state s) key
        in s\<lparr>BACKUP := AList.update key original (BACKUP s)\<rparr>)"

definition apply_setting ::
  "'r winreg \<Rightarrow> RegSetting \<Rightarrow> 'r privacy_state \<Rightarrow> (string + string) \<times> 'r privacy_state" where
  "apply_setting api setting s =
     (let s = backup_setting api setting s;
          before = read_reg_value api (winreg_state s) (setting_key setting)
      in case write_reg_value api (winreg_state s) (setting_key setting)
                (dword_value setting) (value_type setting) of
           (Some e, r') \<Rightarrow> (Inl e, s\<lparr>winreg_state := r'\<rparr>)
         | (None, r') \<Rightarrow>
             (let after = read_reg_value api r' (setting_key setting);
                  msg = value_path (path setting) (value_name setting) @ '': ''
                          @ str_opt_int before @ arrow @ str_opt_int after
              in (Inr msg, s\<lparr>winreg_state := r'\<rparr>)))"

fun apply_settings_loop ::
  "'r winreg \<Rightarrow> RegSetting list \<Rightarrow> string list \<Rightarrow> 'r privacy_state
     \<Rightarrow> string list \<times> 'r privacy_state" where
  "apply_settings_loop api [] messages s = (messages, s)"
| "apply_settings_loop api (x # rest) messages s =
     (case apply_setting api x s of
        (Inr msg, s') \<Rightarrow> apply_settings_loop api rest (messages @ [msg]) s'
      | (Inl e, s') \<Rightarrow>
          apply_settings_loop api rest
            (messages @ [''ERROR: '' @ value_path (path x) (value_name x) @ '': '' @ e]) s')"

definition apply_settings ::
  "'r winreg \<Rightarrow> RegSetting list \<Rightarrow> 'r privacy_state \<Rightarrow> string \<times> 'r privacy_state" where
  "apply_settings api settings s =
     (let (messages, s') = apply_settings_loop api settings [] s
      in (join [CHR 0x0A] messages, s'))"

definition RECOMMENDED_SETTINGS :: "RegSetting list" where
  "RECOMMENDED_SETTINGS =
     [\<lparr>root = HKEY_CURRENT_USER,
       path = ''Software'' @ [CHR 0x5C] @ ''Microsoft'' @ [CHR 0x5C] @ ''Windows'' @ [CHR 0x5C]
                @ ''CurrentVersion'' @ [CHR 0x5C] @ ''AdvertisingInfo'',
       value_name = ''Enabled'', dword_value = 0, value_type = REG_DWORD\<rparr>,
      \<lparr>root = HKEY_CURRENT_USER,
       path = ''Software'' @ [CHR 0x5C] @ ''Microsoft'' @ [CHR 0x5C] @ ''Windows'' @ [CHR 0x5C]
                @ ''CurrentVersion'' @ [CHR 0x5C] @ ''Privacy'',
       value_name = ''TailoredExperiencesWithDiagnosticDataEnabled'', dword_value = 0,
       value_type = REG_DWORD\<rparr>,
      \<lparr>root = HKEY_CURRENT_USER,
       path = ''Software'' @ [CHR 0x5C] @ ''Microsoft'' @ [CHR 0x5C] @ ''Windows'' @ [CHR 0x5C]
                @ ''CurrentVersion'' @ [CHR 0x5C] @ ''Explorer'' @ [CHR 0x5C] @ ''Advanced'',
       value_name = ''Start_TrackProgs'', dword_value = 0, value_type = REG_DWORD\<rparr>,
      \<lparr>root = HKEY_CURRENT_USER,
       path = ''Software'' @ [CHR 0x5C] @ ''Microsoft'' @ [CHR 0x5C] @ ''Windows'' @ [CHR 0x5C]
                @ ''CurrentVersion'' @ [CHR 0x5C] @ ''BackgroundAccessApplications'',
       value_name = ''GlobalUserDisabled'', dword_value = 1, value_type = REG_DWORD\<rparr>,
      \<lparr>root = HKEY_LOCAL_MACHINE,
       path = ''SYSTEM'' @ [CHR 0x5C] @ ''CurrentControlSet'' @ [CHR 0x5C] @ ''Services''
                @ [CHR 0x5C] @ ''lfsvc'' @ [CHR 0x5C] @ ''Service'' @ [CHR 0x5C]
                @ ''Configuration'',
       value_name = ''Status'', dword_value = 0, value_type = REG_DWORD\<rparr>]"

definition STRICT_SETTINGS :: "RegSetting list" where
  "STRICT_SETTINGS =
     RECOMMENDED_SETTINGS @
     [\<lparr>root = HKEY_LOCAL_MACHINE,
       path = ''SOFTWARE'' @ [CHR 0x5C] @ ''Policies'' @ [CHR 0x5C] @ ''Microsoft''
                @ [CHR 0x5C] @ ''Windows'' @ [CHR 0x5C] @ ''DataCollection'',
       value_name = ''AllowTelemetry'', dword_value = 0, value_type = REG_DWORD\<rparr>,
      \<lparr>root = HKEY_LOCAL_MACHINE,
       path = ''SOFTWARE'' @ [CHR 0x5C] @ ''Microsoft'' @ [CHR 0x5C] @ ''Windows''
                @ [CHR 0x5C] @ ''Windows Error Reporting'',
       value_name = ''Disabled'', dword_value = 1, value_type = REG_DWORD\<rparr>,
      \<lparr>root = HKEY_LOCAL_MACHINE,
       path = ''SOFTWARE'' @ [CHR 0x5C] @ ''Microsoft'' @ [CHR 0x5C] @ ''Windows''
                @ [CHR 0x5C] @ ''CurrentVersion'' @ [CHR 0x5C] @ ''CapabilityAccessManager''
                @ [CHR 0x5C] @ ''ConsentStore'' @ [CHR 0x5C] @ ''webcam'',
       value_name = ''Value'', dword_value = 0, value_type = REG_SZ\<rparr>,
      \<lparr>root = HKEY_LOCAL_MACHINE,
       path = ''SOFTWARE'' @ [CHR 0x5C] @ ''Microsoft'' @ [CHR 0x5C] @ ''Windows''
                @ [CHR 0x5C] @ ''CurrentVersion'' @ [CHR 0x5C] @ ''CapabilityAccessManager''
                @ [CHR 0x5C] @ ''ConsentStore'' @ [CHR 0x5C] @ ''microphone'',
       value_name = ''Value'', dword_value = 0, value_type = REG_SZ\<rparr>]"

definition apply_recommended_privacy_profile ::
  "'r winreg \<Rightarrow> 'r privacy_state \<Rightarrow> string \<times> 'r privacy_state" where
  "apply_recommended_privacy_profile api s =
     (let (result, s') = apply_settings api RECOMMENDED_SETTINGS s
      in (''Recommended privacy profile applied.'' @ [CHR 0x0A, CHR 0x0A] @ result, s'))"

definition apply_strict_privacy_profile ::
  "'r winreg \<Rightarrow> 'r privacy_state \<Rightarrow> string \<times> 'r privacy_state" where
  "apply_strict_privacy_profile api s =
     (let (result, s') = apply_settings api STRICT_SETTINGS s
      in (''Strict privacy profile applied.'' @ [CHR 0x0A]
            @ ''(Some changes require reboot to take effect.)'' @ [CHR 0x0A, CHR 0x0A] @ result,
          s'))"

text \<open>
  The loop of \<^verbatim>\<open>restore_privacy_defaults\<close> over the items of \<^verbatim>\<open>_BACKUP\<close>: it writes
  the registry and never the dict.
\<close>

fun restore_loop ::
  "'r winreg \<Rightarrow> (reg_key \<times> int option) list \<Rightarrow> string list \<Rightarrow> 'r \<Rightarrow> string list \<times> 'r" where
  "restore_loop api [] messages r = (messages, r)"
| "restore_loop api ((key, original_value) # rest) messages r =
     (let vp = value_path (fst (snd key)) (snd (snd key)) in
      case original_value of
        None \<Rightarrow>
          (case delete_value api r key of
             Deleted r' \<Rightarrow> restore_loop api rest (messages @ [vp @ '': deleted (default)'']) r'
           | Value_not_found r' \<Rightarrow>
               restore_loop api rest (messages @ [vp @ '': already missing'']) r'
           | Delete_failed e r' \<Rightarrow>
               restore_loop api rest (messages @ [''ERROR restoring '' @ vp @ '': '' @ e]) r')
      | Some v \<Rightarrow>
          (case set_value api r key v REG_DWORD of
             (None, r') \<Rightarrow>
               restore_loop api rest (messages @ [vp @ '': restored to '' @ str_int v]) r'
           | (Some e, r') \<Rightarrow>
               restore_loop api rest (messages @ [''ERROR restoring '' @ vp @ '': '' @ e]) r'))"

definition restore_privacy_defaults ::
  "'r winreg \<Rightarrow> 'r privacy_state \<Rightarrow> string \<times> 'r privacy_state" where
  "restore_privacy_defaults api s =
     (let (messages, r') = restore_loop api (BACKUP s) [] (winreg_state s)
      in if messages = []
         then (''No previous privacy settings to restore.'', s\<lparr>winreg_state := r'\<rparr>)
         else (''Privacy defaults restored.'' @ [CHR 0x0A, CHR 0x0A] @ join [CHR 0x0A] messages,
               s\<lparr>winreg_state := r'\<rparr>))"

text \<open>Any sequence of calls of the three public functions within one process.\<close>

datatype privacy_call = Apply_recommended | Apply_strict | Restore_defaults

fun run_call :: "'r winreg \<Rightarrow> privacy_call \<Rightarrow> 'r privacy_state \<Rightarrow> string \<times> 'r privacy_state" where
  "run_call api Apply_recommended s = apply_recommended_privacy_profile api s"
| "run_call api Apply_strict s = apply_strict_privacy_profile api s"
| "run_call api Restore_defaults s = restore_privacy_defaults api s"

fun run_calls :: "'r winreg \<Rightarrow> privacy_call list \<Rightarrow> 'r privacy_state \<Rightarrow> 'r privacy_state" where
  "run_calls api [] s = s"
| "run_calls api (c # cs) s = run_calls api cs (snd (run_call api c s))"

section \<open>The loop of the CLI (main.py)\<close>

text \<open>
  The loop reads lines and, for some actions, an answer; both come from the terminal, the
  answers as a list that \<^verbatim>\<open>input()\<close> consumes (at its end \<^verbatim>\<open>input()\<close> raises
  \<^verbatim>\<open>EOFError\<close>). What the loop prints is left out: printing neither reads nor changes
  the log, the answers or the machine; the text to print is still computed where it can
  raise.

  Python checks types when it runs: a variable of the loop holds a string or an
  \<^verbatim>\<open>Action\<close>. \<^verbatim>\<open>sep.join(xs)\<close> raises \<^verbatim>\<open>TypeError\<close> at the first item that is not
  a string, and \<^verbatim>\<open>ACTIONS.get(x)\<close> raises it for an \<^verbatim>\<open>Action\<close>, which is a dataclass
  with \<^verbatim>\<open>__eq__\<close> and so without a hash.
\<close>

datatype 'w pyval = PyStr string | PyAction "'w Action"

fun join_items :: "nat \<Rightarrow> 'w pyval list \<Rightarrow> string + string list" where
  "join_items i [] = Inr []"
| "join_items i (PyStr s # rest) =
     (case join_items (Suc i) rest of Inl e \<Rightarrow> Inl e | Inr ss \<Rightarrow> Inr (s # ss))"
| "join_items i (PyAction a # rest) =
     Inl (''TypeError: sequence item '' @ str_nat i
            @ '': expected str instance, Action found'')"

definition py_join :: "string \<Rightarrow> 'w pyval list \<Rightarrow> string + string" where
  "py_join sep xs = (case join_items 0 xs of Inl e \<Rightarrow> Inl e | Inr ss \<Rightarrow> Inr (join sep ss))"

definition dict_get :: "'w catalog \<Rightarrow> 'w pyval \<Rightarrow> string + 'w Action option" where
  "dict_get acts x =
     (case x of
        PyStr k \<Rightarrow> Inr (map_of acts k)
      | PyAction a \<Rightarrow> Inl (''TypeError: unhashable type: '' @ quoted ''Action''))"

record 'w cli_state =
  cli_log :: log
  answers :: "string list"
  world :: 'w

datatype cli_outcome = Continue | Exit | Uncaught string

definition ask_confirmation :: "string list \<Rightarrow> (string + bool) \<times> string list" where
  "ask_confirmation ans =
     (case ans of
        [] \<Rightarrow> (Inl ''EOFError'', [])
      | a # rest \<Rightarrow> (Inr (lower (strip a) = ''y''), rest))"

text \<open>\<^verbatim>\<open>START\<close>, the call of \<^verbatim>\<open>action.fn()\<close> inside \<^verbatim>\<open>try\<close>, then \<^verbatim>\<open>SUCCESS\<close> or \<^verbatim>\<open>ERROR\<close>.\<close>

definition cli_call :: "'w Action \<Rightarrow> string \<Rightarrow> 'w cli_state \<Rightarrow> 'w cli_state" where
  "cli_call action info s =
     (let lg = log_action (name action) ''START'' info (cli_log s) in
      case func action (world s) of
        (Inr r, w') \<Rightarrow> s\<lparr>cli_log := log_action (name action) ''SUCCESS'' [] lg, world := w'\<rparr>
      | (Inl e, w') \<Rightarrow> s\<lparr>cli_log := log_action (name action) ''ERROR'' e lg, world := w'\<rparr>)"

text \<open>The \<^verbatim>\<open>for name in action_names\<close> loop; \<open>Some\<close> is an exception that leaves it.\<close>

fun cli_steps :: "'w catalog \<Rightarrow> 'w pyval list \<Rightarrow> 'w cli_state \<Rightarrow> string option \<times> 'w cli_state" where
  "cli_steps acts [] s = (None, s)"
| "cli_steps acts (nm # rest) s =
     (case dict_get acts nm of
        Inl e \<Rightarrow> (Some e, s)
      | Inr None \<Rightarrow> cli_steps acts rest s
      | Inr (Some action) \<Rightarrow>
          (if dangerous action
           then (case ask_confirmation (answers s) of
                   (Inl e, ans) \<Rightarrow> (Some e, s\<lparr>answers := ans\<rparr>)
                 | (Inr False, ans) \<Rightarrow>
                     cli_steps acts rest
                       (s\<lparr>cli_log := log_action (name action) ''SKIP''
                                         ''User declined dangerous action.'' (cli_log s),
                          answers := ans\<rparr>)
                 | (Inr True, ans) \<Rightarrow>
                     cli_steps acts rest (cli_call action [] (s\<lparr>answers := ans\<rparr>)))
           else cli_steps acts rest (cli_call action [] s)))"

text \<open>The single action of the keyword interpreter, when the plan is empty.\<close>

definition cli_fallback :: "'w catalog \<Rightarrow> string \<Rightarrow> 'w cli_state \<Rightarrow> cli_outcome \<times> 'w cli_state" where
  "cli_fallback acts user s =
     (case interpret_command_keyword acts user of
        None \<Rightarrow> (Continue, s\<lparr>cli_log := log_event ''No action matched for input.'' (cli_log s)\<rparr>)
      | Some action \<Rightarrow>
          (if dangerous action
           then (case ask_confirmation (answers s) of
                   (Inl e, ans) \<Rightarrow> (Uncaught e, s\<lparr>answers := ans\<rparr>)
                 | (Inr False, ans) \<Rightarrow>
                     (Continue,
                      s\<lparr>cli_log := log_action (name action) ''SKIP''
                                        ''User declined dangerous action (fallback).'' (cli_log s),
                         answers := ans\<rparr>)
                 | (Inr True, ans) \<Rightarrow>
                     (Continue,
                      cli_call action ''Fallback keyword interpreter.'' (s\<lparr>answers := ans\<rparr>)))
           else (Continue, cli_call action ''Fallback keyword interpreter.'' s)))"

text \<open>
  One turn of \<^verbatim>\<open>while True\<close> for a line read. \<^verbatim>\<open>action_names\<close> is what
  \<^verbatim>\<open>choose_actions_for_request\<close> returned: a list of \<^verbatim>\<open>Action\<close>.
\<close>

definition main_turn ::
  "'w catalog \<Rightarrow> gemini \<Rightarrow> string \<Rightarrow> 'w cli_state \<Rightarrow> cli_outcome \<times> 'w cli_state" where
  "main_turn acts g line s =
     (let user = strip line in
      if user = [] then (Continue, s)
      else if lower user \<in> set [''exit'', ''quit''] then (Exit, s)
      else if lower user \<in> set [''help'', ''commands''] then (Continue, s)
      else
        let lg = log_event (''User input: '' @ user) (cli_log s);
            (actions, lg) = choose_actions_for_request acts g user lg;
            action_names = map PyAction actions;
            s = s\<lparr>cli_log := lg\<rparr>
        in if action_names \<noteq> []
           then (case py_join '', '' action_names of
                   Inl e \<Rightarrow> (Uncaught e, s)
                 | Inr planned \<Rightarrow>
                     (case cli_steps acts action_names s of
                        (Some e, s') \<Rightarrow> (Uncaught e, s')
                      | (None, s') \<Rightarrow> (Continue, s')))
           else cli_fallback acts user s)"

text \<open>
  The loop over the lines typed; after the last one \<^verbatim>\<open>input()\<close> raises \<^verbatim>\<open>EOFError\<close>
  and the program exits.
\<close>

fun main :: "'w catalog \<Rightarrow> gemini \<Rightarrow> string list \<Rightarrow> 'w cli_state \<Rightarrow> cli_outcome \<times> 'w cli_state" where
  "main acts g [] s = (Exit, s)"
| "main acts g (line # lines) s =
     (case main_turn acts g line s of
        (Continue, s') \<Rightarrow> main acts g lines s'
      | (outcome, s') \<Rightarrow> (outcome, s'))"

section \<open>Properties used to state the claims\<close>

text \<open>Every entry of the registry is stored under its own id.\<close>

definition ids_ok :: "'w catalog \<Rightarrow> bool" where
  "ids_ok acts = list_all (\<lambda>(k, a). action_id a = k) acts"

text \<open>
  Running handlers one after the other, each on the world its predecessor left, whatever
  each of them returned or raised: the world at the end, and what the \<open>i\<close>-th handler
  answered.
\<close>

definition final_world :: "'w handler list \<Rightarrow> 'w \<Rightarrow> 'w" where
  "final_world hs w = foldl (\<lambda>w h. snd (h w)) w hs"

definition outcome_at :: "'w handler list \<Rightarrow> 'w \<Rightarrow> nat \<Rightarrow> string + string option" where
  "outcome_at hs w i = fst ((hs ! i) (final_world (take i hs) w))"

text \<open>The summary of a plan shows the line of every step.\<close>

definition result_line :: "string \<Rightarrow> string + string option \<Rightarrow> string" where
  "result_line nm outcome =
     (case outcome of
        Inl e \<Rightarrow> nm @ '': ERROR - '' @ e
      | Inr None \<Rightarrow> nm @ '': completed.''
      | Inr (Some r) \<Rightarrow> (if r \<noteq> [] then nm @ '': '' @ r else nm @ '': completed.''))"

definition plan_summary_ok :: "'w Action list \<Rightarrow> 'w \<Rightarrow> string \<Rightarrow> bool" where
  "plan_summary_ok plan w summary =
     list_all (\<lambda>i. sublist (result_line (name (plan ! i)) (outcome_at (map func plan) w i))
                     summary)
       [0..<length plan]"

text \<open>
  An aggregate action over the tools \<open>func_names\<close> returns a summary, has run every tool
  that exists, in order, and its summary shows the failure text of every tool that raised
  and the text every other tool returned.
\<close>

definition tool_line :: "string \<Rightarrow> string + string option \<Rightarrow> string" where
  "tool_line func_name outcome =
     (case outcome of
        Inl e \<Rightarrow> func_name @ '' failed: '' @ e
      | Inr None \<Rightarrow> []
      | Inr (Some r) \<Rightarrow> r)"

definition aggregate_ok :: "'w py_module \<Rightarrow> string list \<Rightarrow> 'w handler \<Rightarrow> 'w \<Rightarrow> bool" where
  "aggregate_ok st func_names h w =
     (let tools = filter (hasattr st) func_names;
          hs = map (getattr st) tools
      in case h w of
           (Inr (Some summary), w') \<Rightarrow>
             w' = final_world hs w \<and>
             list_all (\<lambda>i. sublist (tool_line (tools ! i) (outcome_at hs w i)) summary)
               [0..<length tools]
         | (other, w') \<Rightarrow> False)"

text \<open>The lists the two loops build, as functions of the steps and the world.\<close>

fun result_lines :: "'w Action list \<Rightarrow> 'w \<Rightarrow> string list" where
  "result_lines [] w = []"
| "result_lines (a # rest) w =
     result_line (name a) (fst (func a w)) # result_lines rest (snd (func a w))"

fun tool_lines :: "'w py_module \<Rightarrow> string list \<Rightarrow> 'w \<Rightarrow> string list" where
  "tool_lines st [] w = []"
| "tool_lines st (n # rest) w =
     (if tool_line n (fst (getattr st n w)) \<noteq> [] then [tool_line n (fst (getattr st n w))]
      else [])
     @ tool_lines st rest (snd (getattr st n w))"

text \<open>
  A run to try the claims on: the world is the list of the steps that ran; four actions
  of which the second raises and the third returns nothing; the remote strategy selects
  the four in order.
\<close>

definition demo_step :: "string \<Rightarrow> string + string option \<Rightarrow> string list handler" where
  "demo_step tag outcome w = (outcome, w @ [tag])"

definition demo_action :: "string \<Rightarrow> string \<Rightarrow> string + string option \<Rightarrow> string list Action" where
  "demo_action aid nm outcome =
     \<lparr>action_id = aid, name = nm, description = [], group_tag = ''demo'', dangerous = False,
      func = demo_step aid outcome\<rparr>"

definition demo_plan :: "string list Action list" where
  "demo_plan =
     [demo_action ''s1'' ''A'' (Inr (Some ''one done'')),
      demo_action ''s2'' ''B'' (Inl ''boom''),
      demo_action ''s3'' ''C'' (Inr None),
      demo_action ''s4'' ''D'' (Inr (Some ''four done''))]"

definition demo_catalog :: "string list catalog" where
  "demo_catalog = map (\<lambda>a. (action_id a, a)) demo_plan"

definition demo_reply :: gemini where
  "demo_reply = Gemini_data (JArray [JString ''s1'', JString ''s2'', JString ''s3'', JString ''s4''])"

text \<open>
  A registry extends another when it has every id of the other, has every record of the
  other's log, and stores its entries under their own ids if the other did.
\<close>

definition registry_extends :: "'w registry \<Rightarrow> 'w registry \<Rightarrow> bool" where
  "registry_extends r r' =
     ((\<forall>k. has_key (fst r) k \<longrightarrow> has_key (fst r') k) \<and> set (snd r) \<subseteq> set (snd r')
      \<and> (ids_ok (fst r) \<longrightarrow> ids_ok (fst r')))"

text \<open>
  What the registry after loading shows of one plugin module: a failed import and a
  raising \<^verbatim>\<open>register()\<close> are in the log as warnings; every action the module registered,
  before raising or not, is in the catalog and in \<^verbatim>\<open>list_actions()\<close>.
\<close>

definition listed :: "'w catalog \<Rightarrow> string \<Rightarrow> bool" where
  "listed acts aid = list_ex (\<lambda>a. action_id a = aid) (list_actions acts)"

definition plugin_handled :: "string \<Rightarrow> 'w plugin_module \<Rightarrow> 'w registry \<Rightarrow> bool" where
  "plugin_handled package_name m r =
     (case imported m of
        Inl e \<Rightarrow>
          Log_warning (''Failed to import plugin module ''
                        @ quoted (package_name @ ''.'' @ mod_name m) @ '': '' @ e) \<in> set (snd r)
      | Inr No_register \<Rightarrow> True
      | Inr (Register calls raised) \<Rightarrow>
          list_all (\<lambda>c. has_key (fst r) (fst c) \<and> listed (fst r) (fst c)) calls
          \<and> (case raised of
                None \<Rightarrow> True
              | Some e \<Rightarrow>
                  Log_warning (''Plugin '' @ quoted (package_name @ ''.'' @ mod_name m)
                                @ '' register() failed: '' @ e) \<in> set (snd r)))"

text \<open>Two plugins to try the claims on: the first raises, the second is well behaved.\<close>

definition demo_plugins :: "string list plugin_module list" where
  "demo_plugins =
     [\<lparr>mod_name = ''bad'',
       imported = Inr (Register [(''bad_one'', ''Bad'', [], ''demo'',
                                  demo_step ''bad_one'' (Inr None), False)] (Some ''boom''))\<rparr>,
      \<lparr>mod_name = ''good'',
       imported = Inr (Register [(''good_one'', ''Good'', [], ''demo'',
                                  demo_step ''good_one'' (Inr None), True)] None)\<rparr>]"

text \<open>
  A registry to try the claims on: a map from keys to numbers, whose writes and deletes
  always succeed.
\<close>

definition demo_winreg :: "(reg_key \<Rightarrow> int option) winreg" where
  "demo_winreg =
     \<lparr>query_value = (\<lambda>r key. case r key of None \<Rightarrow> File_not_found | Some v \<Rightarrow> Found v),
      set_value = (\<lambda>r key v vt. (None, r(key := Some v))),
      delete_value = (\<lambda>r key. case r key of None \<Rightarrow> Value_not_found r
                                | Some v \<Rightarrow> Deleted (r(key := None)))\<rparr>"

definition demo_setting :: RegSetting where
  "demo_setting =
     \<lparr>root = HKEY_CURRENT_USER, path = ''Software'', value_name = ''Enabled'',
      dword_value = 0, value_type = REG_DWORD\<rparr>"

definition demo_state :: "(reg_key \<Rightarrow> int option) privacy_state" where
  "demo_state =
     \<lparr>winreg_state = (\<lambda>key. if key = setting_key demo_setting then Some 1 else None),
      BACKUP = []\<rparr>"

section \<open>Proofs\<close>

subsection \<open>Strings\<close>

lemma isspace_lower_char: "isspace (lower_char c) = isspace c"
  unfolding isspace_def lower_char_def
  by (auto split: option.splits if_splits)

lemma strip_lower: "strip (lower s) = lower (strip s)"
  unfolding strip_def lower_def
  by (simp add: dropWhile_map rev_map comp_def isspace_lower_char)

lemma sublist_dropWhile:
  assumes "sublist k s" "k \<noteq> []" "\<not> P (hd k)"
  shows "sublist k (dropWhile P s)"
  using assms
proof (induction s)
  case Nil
  then show ?case by simp
next
  case (Cons a s)
  show ?case
  proof (cases "P a")
    case True
    with Cons.prems have "\<not> prefix k (a # s)"
      by (cases k) auto
    with Cons.prems have "sublist k s"
      by (simp add: sublist_Cons_right)
    with Cons True show ?thesis by simp
  next
    case False
    then show ?thesis using Cons.prems by simp
  qed
qed

lemma sublist_strip:
  assumes "sublist k s" "k \<noteq> []" "\<not> isspace (hd k)" "\<not> isspace (last k)"
  shows "sublist k (strip s)"
proof -
  have "sublist k (dropWhile isspace s)"
    using assms by (simp add: sublist_dropWhile)
  then have "sublist (rev k) (rev (dropWhile isspace s))"
    by simp
  then have "sublist (rev k) (dropWhile isspace (rev (dropWhile isspace s)))"
    using assms by (intro sublist_dropWhile) (simp_all add: hd_rev)
  then show ?thesis
    unfolding strip_def by (simp add: sublist_rev_right)
qed

lemma strip_sublist: "sublist (strip s) s"
proof -
  have a: "sublist (dropWhile isspace s) s"
    by (simp add: suffix_dropWhile)
  have "sublist (dropWhile isspace (rev (dropWhile isspace s))) (rev (dropWhile isspace s))"
    by (simp add: suffix_dropWhile)
  then have "sublist (strip s) (dropWhile isspace s)"
    unfolding strip_def by (simp add: sublist_rev_left)
  with a show ?thesis
    using sublist_order.order_trans by blast
qed

lemma kw_strip:
  assumes "k \<noteq> []" "\<not> isspace (hd k)" "\<not> isspace (last k)"
  shows "sublist k (lower (strip s)) = sublist k (lower s)"
proof
  assume "sublist k (lower (strip s))"
  then have "sublist k (strip (lower s))" by (simp add: strip_lower)
  then show "sublist k (lower s)"
    using strip_sublist sublist_order.order_trans by blast
next
  assume "sublist k (lower s)"
  then have "sublist k (strip (lower s))" using assms by (rule sublist_strip)
  then show "sublist k (lower (strip s))" by (simp add: strip_lower)
qed

lemmas rule_defs = cleanup_rule_def health_rules_def network_rule_def tools_rules_def
  privacy_rule_def generic_rule_def any_in_def

lemma cleanup_rule_strip: "cleanup_rule (lower (strip r)) = cleanup_rule (lower r)"
  by (simp add: cleanup_rule_def any_in_def kw_strip isspace_def split del: if_split cong: if_cong)

lemma health_rules_strip: "health_rules (lower (strip r)) = health_rules (lower r)"
  by (simp add: health_rules_def any_in_def kw_strip isspace_def split del: if_split cong: if_cong)

lemma network_rule_strip: "network_rule (lower (strip r)) = network_rule (lower r)"
  by (simp add: network_rule_def any_in_def kw_strip isspace_def split del: if_split cong: if_cong)

lemma tools_rules_strip: "tools_rules (lower (strip r)) = tools_rules (lower r)"
  by (simp add: tools_rules_def any_in_def kw_strip isspace_def split del: if_split cong: if_cong)

lemma privacy_rule_strip: "privacy_rule (lower (strip r)) = privacy_rule (lower r)"
  by (simp add: privacy_rule_def any_in_def kw_strip isspace_def split del: if_split cong: if_cong)

lemma generic_rule_strip: "generic_rule (lower (strip r)) = generic_rule (lower r)"
  by (simp add: generic_rule_def any_in_def kw_strip isspace_def split del: if_split cong: if_cong)

lemma fallback_selected_strip: "fallback_selected (strip request) = fallback_selected request"
  unfolding fallback_selected_def Let_def cleanup_rule_strip health_rules_strip network_rule_strip
    tools_rules_strip privacy_rule_strip generic_rule_strip ..

subsection \<open>Router\<close>

lemma dedup_valid_acc:
  "dedup_valid acts xs seen result = result @ dedup_valid acts xs seen []"
proof (induction xs arbitrary: seen result)
  case Nil
  then show ?case by simp
next
  case (Cons x xs)
  show ?case
    using Cons.IH [of "insert x seen" "result @ [x]"] Cons.IH [of "insert x seen" "[x]"]
      Cons.IH [of seen result]
    by simp
qed

lemma set_dedup_valid:
  "set (dedup_valid acts xs seen []) = {x \<in> set xs. has_key acts x \<and> x \<notin> seen}"
proof (induction xs arbitrary: seen)
  case Nil
  then show ?case by simp
next
  case (Cons x xs)
  show ?case
    using Cons.IH [of "insert x seen"] Cons.IH [of seen]
      dedup_valid_acc [of acts xs "insert x seen" "[x]"]
    by auto
qed

lemma distinct_dedup_valid:
  "distinct (dedup_valid acts xs seen [])"
proof (induction xs arbitrary: seen)
  case Nil
  then show ?case by simp
next
  case (Cons x xs)
  show ?case
    using Cons.IH [of "insert x seen"] Cons.IH [of seen]
      dedup_valid_acc [of acts xs "insert x seen" "[x]"]
    by (auto simp: set_dedup_valid)
qed

lemma ids_ok_map_of: "ids_ok acts \<Longrightarrow> map_of acts k = Some a \<Longrightarrow> action_id a = k"
  unfolding ids_ok_def by (induction acts) (auto split: if_splits)

lemma get_actions_ids:
  "ids_ok acts \<Longrightarrow> map action_id (get_actions acts ids) = filter (has_key acts) ids"
  by (induction ids) (auto simp: has_key_def ids_ok_map_of split: option.splits)

lemma filter_dedup_valid:
  "filter (has_key acts) (dedup_valid acts xs seen []) = dedup_valid acts xs seen []"
  by (rule filter_True) (simp add: set_dedup_valid)

lemma plan_ids_fallback:
  assumes "ids_ok acts"
  shows "map action_id (fst (choose_actions_for_request acts Not_configured request lg)) =
           (if strip request = [] then [] else fallback_choose_action_ids acts request)"
  using assms
  by (simp add: choose_actions_for_request_def gemini_choose_action_ids_def Let_def
      get_actions_ids fallback_choose_action_ids_def filter_dedup_valid fallback_selected_strip)

subsection \<open>The catalog after initialisation\<close>

lemma ACTIONS_unfold:
  "ACTIONS st pt = fst (register_builtin_actions st pt ([], []))"
  by (simp add: ACTIONS_def initial_registry_def load_plugins_def example_cleanup_def
      startswith_def logged_def Let_def)

lemma fst_reg: "fst (reg aid nm d g f dg r) =
   AList.update aid \<lparr>action_id = aid, name = nm, description = d, group_tag = g,
                    dangerous = dg, func = f\<rparr> (fst r)"
  by (cases r) (simp add: reg_def register_action_def Let_def)

lemma fst_import_warnings: "fst (import_warnings st pt r) = fst r"
  by (cases r) (simp add: import_warnings_def Let_def)

lemma ACTIONS_keys:
  "map fst (ACTIONS st pt) =
     [''cleanup_temp'', ''cleanup_prefetch'', ''cleanup_windows_update_cache'',
      ''cleanup_recommended'', ''health_sfc'', ''health_dism'', ''health_chkdsk'',
      ''health_full'', ''network_reset'', ''tools_task_manager'', ''tools_device_manager'',
      ''tools_services'', ''tools_system_restore'', ''privacy_recommended'',
      ''privacy_strict'', ''privacy_restore_defaults'']"
  by (simp add: ACTIONS_unfold register_builtin_actions_def fst_reg fst_import_warnings)

lemma has_key_keys: "has_key acts k = (k \<in> set (map fst acts))"
  by (simp add: has_key_def map_of_eq_None_iff)

lemma has_key_ACTIONS:
  "has_key (ACTIONS st pt) k =
     (k \<in> set [''cleanup_temp'', ''cleanup_prefetch'', ''cleanup_windows_update_cache'',
      ''cleanup_recommended'', ''health_sfc'', ''health_dism'', ''health_chkdsk'',
      ''health_full'', ''network_reset'', ''tools_task_manager'', ''tools_device_manager'',
      ''tools_services'', ''tools_system_restore'', ''privacy_recommended'',
      ''privacy_strict'', ''privacy_restore_defaults''])"
  unfolding has_key_keys ACTIONS_keys ..

lemma ids_ok_update:
  "ids_ok acts \<Longrightarrow> action_id a = k \<Longrightarrow> ids_ok (AList.update k a acts)"
  unfolding ids_ok_def by (induction acts) auto

lemma ids_ok_reg: "ids_ok (fst r) \<Longrightarrow> ids_ok (fst (reg aid nm d g f dg r))"
  by (simp add: fst_reg ids_ok_update)

lemma ids_ok_ACTIONS: "ids_ok (ACTIONS st pt)"
  unfolding ACTIONS_unfold register_builtin_actions_def
  by (intro ids_ok_reg) (simp add: fst_import_warnings ids_ok_def)


subsection \<open>The keyword strategy\<close>

lemma fallback_ids_ACTIONS:
  "set (fallback_choose_action_ids (ACTIONS st pt) request) =
     {x \<in> set (fallback_selected request). has_key (ACTIONS st pt) x}"
  by (simp add: fallback_choose_action_ids_def set_dedup_valid)

lemma cwuc_not_selected:
  "''cleanup_windows_update_cache'' \<notin> set (fallback_selected request)"
proof -
  let ?t = "lower request"
  have 1: "''cleanup_windows_update_cache'' \<notin> set (cleanup_rule ?t)"
    by (simp add: cleanup_rule_def any_in_def)
  have 2: "''cleanup_windows_update_cache'' \<notin> set (health_rules ?t)"
    by (simp add: health_rules_def)
  have 3: "''cleanup_windows_update_cache'' \<notin> set (network_rule ?t)"
    by (simp add: network_rule_def)
  have 4: "''cleanup_windows_update_cache'' \<notin> set (tools_rules ?t)"
    by (simp add: tools_rules_def)
  have 5: "''cleanup_windows_update_cache'' \<notin> set (privacy_rule ?t)"
    by (simp add: privacy_rule_def)
  have 6: "''cleanup_windows_update_cache'' \<notin> set (generic_rule ?t)"
    by (simp add: generic_rule_def)
  show ?thesis
    unfolding fallback_selected_def Let_def using 1 2 3 4 5 6
    by (simp split del: if_split add: if_split [of "\<lambda>xs. _ \<in> set xs"])
qed

lemma ev1: "fallback_selected ''clear the windows update cache'' = [''cleanup_recommended'']"
  by (simp add: fallback_selected_def rule_defs lower_def lower_char_def sublist_code)

lemma strip1: "strip ''clear the windows update cache'' = ''clear the windows update cache''"
  by (simp add: strip_def isspace_def)

text \<open>
  C3: in the keyword strategy, a request whose lowercased text contains both
  "windows update" and "cache" should resolve to \<open>cleanup_windows_update_cache\<close>.
  The code never selects that id, whatever the request and the catalog: the test for
  "cache" in the first branch of the cleanup chain comes before it. The request
  "clear the windows update cache" resolves to \<open>cleanup_recommended\<close> alone.
\<close>

theorem C3_windows_update_cache_never_selected:
  "''cleanup_windows_update_cache'' \<notin> set (fallback_choose_action_ids acts request) \<and>
   map action_id (fst (choose_actions_for_request (ACTIONS st pt) Not_configured
      ''clear the windows update cache'' lg)) = [''cleanup_recommended'']"
proof
  show "''cleanup_windows_update_cache'' \<notin> set (fallback_choose_action_ids acts request)"
    by (simp add: fallback_choose_action_ids_def set_dedup_valid cwuc_not_selected)
  show "map action_id (fst (choose_actions_for_request (ACTIONS st pt) Not_configured
      ''clear the windows update cache'' lg)) = [''cleanup_recommended'']"
    by (simp add: plan_ids_fallback ids_ok_ACTIONS strip1 fallback_choose_action_ids_def ev1
        has_key_ACTIONS)
qed

lemma strip2: "strip ''lock down my privacy, maximum'' = ''lock down my privacy, maximum''"
  by (simp add: strip_def isspace_def)

lemma ev2: "fallback_selected ''lock down my privacy, maximum'' = [''privacy_recommended'']"
  by (simp add: fallback_selected_def rule_defs lower_def lower_char_def sublist_code)

lemma lock_down_plan:
  "map action_id (fst (choose_actions_for_request (ACTIONS st pt) Not_configured
      ''lock down my privacy, maximum'' lg)) = [''privacy_recommended'']"
  by (simp add: plan_ids_fallback ids_ok_ACTIONS strip2 fallback_choose_action_ids_def ev2
        has_key_ACTIONS)

lemma lock_down_keyword:
  "keyword_action_id ''lock down my privacy, maximum'' = Some ''privacy_strict''"
  by (simp add: keyword_action_id_def lower_def lower_char_def sublist_code)

lemma strip_restore: "strip ''restore my privacy settings'' = ''restore my privacy settings''"
  by (simp add: strip_def isspace_def)

lemma restore_selected:
  "fallback_selected ''restore my privacy settings'' = [''privacy_recommended'']"
  by (simp add: fallback_selected_def rule_defs lower_def lower_char_def sublist_code)

lemma restore_plan:
  "map action_id (fst (choose_actions_for_request (ACTIONS st pt) Not_configured
      ''restore my privacy settings'' lg)) = [''privacy_recommended'']"
  by (simp add: plan_ids_fallback ids_ok_ACTIONS strip_restore fallback_choose_action_ids_def
      restore_selected has_key_ACTIONS)

lemma restore_keyword:
  "keyword_action_id ''restore my privacy settings'' = Some ''privacy_restore_defaults''"
  by (simp add: keyword_action_id_def lower_def lower_char_def sublist_code)

lemma keyword_registered_id:
  assumes "keyword_action_id request = Some k" "has_key (ACTIONS st pt) k"
  shows "map_option action_id (interpret_command_keyword (ACTIONS st pt) request) = Some k"
proof -
  obtain a where a: "map_of (ACTIONS st pt) k = Some a"
    using assms(2) by (auto simp: has_key_def)
  then have "action_id a = k"
    using ids_ok_ACTIONS ids_ok_map_of by blast
  with a assms(1) show ?thesis
    by (simp add: interpret_command_keyword_def)
qed

text \<open>
  C4: with the remote strategy disabled, "lock down my privacy, maximum" should resolve
  to \<open>privacy_strict\<close>, and the qualifier "restore" should select the restore action.
  The keyword strategy of the router tests only the words "strict" and "default": the
  plan for "lock down my privacy, maximum" is \<open>privacy_recommended\<close> alone, and so is the
  plan for "restore my privacy settings". The keyword interpreter of main.py, which tests
  "lock down", "maximum" and "restore" too, returns \<open>privacy_strict\<close> and
  \<open>privacy_restore_defaults\<close> for the same texts and the same catalog.
\<close>

theorem C4_lock_down_resolves_to_recommended:
  "map action_id (fst (choose_actions_for_request (ACTIONS st pt) Not_configured
      ''lock down my privacy, maximum'' lg)) = [''privacy_recommended'']
   \<and> map_option action_id
        (interpret_command_keyword (ACTIONS st pt) ''lock down my privacy, maximum'')
      = Some ''privacy_strict''
   \<and> map action_id (fst (choose_actions_for_request (ACTIONS st pt) Not_configured
      ''restore my privacy settings'' lg)) = [''privacy_recommended'']
   \<and> map_option action_id
        (interpret_command_keyword (ACTIONS st pt) ''restore my privacy settings'')
      = Some ''privacy_restore_defaults''"
  by (simp add: lock_down_plan restore_plan has_key_ACTIONS
      keyword_registered_id [OF lock_down_keyword] keyword_registered_id [OF restore_keyword])

subsection \<open>Generic cleanup phrases\<close>

lemma any_in_strip:
  assumes "any_in [''cleanup'', ''clean up'', ''clean my pc'', ''temp'', ''cache'',
                   ''junk'', ''space''] (lower request)"
  shows "strip request \<noteq> []"
proof
  assume "strip request = []"
  then have "cleanup_rule (lower request) = cleanup_rule (lower [])"
    using cleanup_rule_strip [of request] by simp
  also have "\<dots> = []"
    by (simp add: cleanup_rule_def any_in_def lower_def)
  finally show False
    using assms by (simp add: cleanup_rule_def)
qed

lemma generic_cleanup_selected:
  assumes "any_in [''cleanup'', ''clean up'', ''clean my pc'', ''temp'', ''cache'',
                   ''junk'', ''space''] (lower request)"
  shows "\<exists>rest. fallback_selected request = ''cleanup_recommended'' # rest"
proof -
  have "cleanup_rule (lower request) = [''cleanup_recommended'']"
    using assms by (simp add: cleanup_rule_def)
  then show ?thesis
    by (simp add: fallback_selected_def Let_def)
qed

lemma strip3: "strip ''clean up my temp files and cache'' = ''clean up my temp files and cache''"
  by (simp add: strip_def isspace_def)

lemma ev4: "fallback_selected ''clean up my temp files and cache'' = [''cleanup_recommended'']"
  by (simp add: fallback_selected_def rule_defs lower_def lower_char_def sublist_code)

text \<open>
  C5: with the remote strategy disabled, a request whose lowercased text contains one of
  the generic cleanup phrases ("cleanup", "clean up", "clean my pc", "temp", "cache",
  "junk", "space") resolves to a plan whose first element is \<open>cleanup_recommended\<close>;
  "clean up my temp files and cache" resolves to that action alone, not to
  \<open>cleanup_temp\<close>.
\<close>

theorem C5_generic_cleanup_first:
  assumes "any_in [''cleanup'', ''clean up'', ''clean my pc'', ''temp'', ''cache'',
                   ''junk'', ''space''] (lower request)"
  shows "take 1 (map action_id (fst (choose_actions_for_request (ACTIONS st pt)
            Not_configured request lg))) = [''cleanup_recommended''] \<and>
         map action_id (fst (choose_actions_for_request (ACTIONS st pt) Not_configured
            ''clean up my temp files and cache'' lg)) = [''cleanup_recommended'']"
proof
  obtain rest where r: "fallback_selected request = ''cleanup_recommended'' # rest"
    using generic_cleanup_selected [OF assms] by blast
  have "fallback_choose_action_ids (ACTIONS st pt) request =
          ''cleanup_recommended'' # dedup_valid (ACTIONS st pt) rest {''cleanup_recommended''} []"
    using dedup_valid_acc [of "ACTIONS st pt" rest "{''cleanup_recommended''}"
        "[''cleanup_recommended'']"]
    by (simp add: fallback_choose_action_ids_def r has_key_ACTIONS)
  then show "take 1 (map action_id (fst (choose_actions_for_request (ACTIONS st pt)
            Not_configured request lg))) = [''cleanup_recommended'']"
    using any_in_strip [OF assms] by (simp add: plan_ids_fallback ids_ok_ACTIONS)
  show "map action_id (fst (choose_actions_for_request (ACTIONS st pt) Not_configured
            ''clean up my temp files and cache'' lg)) = [''cleanup_recommended'']"
    by (simp add: plan_ids_fallback ids_ok_ACTIONS strip3 fallback_choose_action_ids_def ev4
        has_key_ACTIONS)
qed

lemma ev5: "lower ''My disk has no SPACE left'' = ''my disk has no space left''"
  by (simp add: lower_def lower_char_def)

theorem C5_generic_cleanup_first_witness:
  "any_in [''cleanup'', ''clean up'', ''clean my pc'', ''temp'', ''cache'', ''junk'', ''space'']
     (lower ''My disk has no SPACE left'') \<and>
   take 1 (map action_id (fst (choose_actions_for_request (ACTIONS None None :: unit catalog)
     Not_configured ''My disk has no SPACE left'' []))) = [''cleanup_recommended'']"
proof -
  have h: "any_in [''cleanup'', ''clean up'', ''clean my pc'', ''temp'', ''cache'', ''junk'',
             ''space''] (lower ''My disk has no SPACE left'')"
    unfolding ev5 by (simp add: any_in_def sublist_code)
  show ?thesis
    using h C5_generic_cleanup_first [OF h, of "None :: unit py_module" None "[]"] by simp
qed

subsection \<open>The remote strategy\<close>

lemma strip4: "strip ''fix my network'' = ''fix my network''"
  by (simp add: strip_def isspace_def)

text \<open>
  C1: whichever strategy supplied the ids, the plan should hold each action at most once
  and no id absent from the catalog. When the remote strategy answers
  \<open>["network_reset", "network_reset", "unknown_id"]\<close>, the code drops \<open>unknown_id\<close> and
  keeps both copies of \<open>network_reset\<close>: only the keyword strategy removes duplicates.
\<close>

theorem C1_remote_duplicates_kept:
  "map action_id (fst (choose_actions_for_request (ACTIONS st pt)
      (Gemini_data (JArray [JString ''network_reset'', JString ''network_reset'',
                            JString ''unknown_id'']))
      ''fix my network'' lg)) = [''network_reset'', ''network_reset'']"
proof -
  have "gemini_choose_action_ids (ACTIONS st pt)
      (Gemini_data (JArray [JString ''network_reset'', JString ''network_reset'',
                            JString ''unknown_id''])) lg =
      ([''network_reset'', ''network_reset''], lg)"
    by (simp add: gemini_choose_action_ids_def has_key_ACTIONS)
  then show ?thesis
    by (simp add: choose_actions_for_request_def strip4 Let_def get_actions_ids ids_ok_ACTIONS
        has_key_ACTIONS del: get_actions.simps)
qed

subsection \<open>The keyword interpreter of the CLI\<close>

lemma ev6: "keyword_action_id ''tighten my privacy'' = Some ''privacy_recommended''"
  by (simp add: keyword_action_id_def lower_def lower_char_def sublist_code)

lemma ev7: "keyword_action_id ''run sfc'' = Some ''run_sfc''"
  by (simp add: keyword_action_id_def lower_def lower_char_def sublist_code)

lemma keyword_action_id_range:
  "keyword_action_id text \<in> insert None (Some ` set
     [''run_sfc'', ''run_dism_health_restore'', ''run_chkdsk'', ''clean_temp'',
      ''clean_prefetch'', ''clean_software_distribution'', ''network_reset_advanced'',
      ''network_reset_basic'', ''open_task_manager'', ''open_device_manager'',
      ''open_services'', ''open_system_restore'', ''privacy_strict'',
      ''privacy_restore_defaults'', ''privacy_recommended''])"
  unfolding keyword_action_id_def Let_def by simp

lemma keyword_unregistered:
  assumes "keyword_action_id t \<in> Some ` set
       [''run_sfc'', ''run_dism_health_restore'', ''run_chkdsk'', ''clean_temp'',
        ''clean_prefetch'', ''clean_software_distribution'', ''network_reset_advanced'',
        ''network_reset_basic'', ''open_task_manager'', ''open_device_manager'',
        ''open_services'', ''open_system_restore'']"
  shows "interpret_command_keyword (ACTIONS st pt) t = None"
proof -
  obtain k where k: "keyword_action_id t = Some k" "\<not> has_key (ACTIONS st pt) k"
    using assms by (auto simp: has_key_ACTIONS)
  then show ?thesis
    by (simp add: interpret_command_keyword_def has_key_def)
qed

lemma keyword_registered:
  assumes "interpret_command_keyword (ACTIONS st pt) t = Some a"
  shows "keyword_action_id t = Some (action_id a) \<and>
         action_id a \<in> set [''privacy_strict'', ''privacy_restore_defaults'',
                            ''privacy_recommended'']"
proof -
  obtain k where k: "keyword_action_id t = Some k" "map_of (ACTIONS st pt) k = Some a"
    using assms by (auto simp: interpret_command_keyword_def split: option.splits)
  then have ak: "action_id a = k"
    using ids_ok_ACTIONS ids_ok_map_of by blast
  have "has_key (ACTIONS st pt) k"
    using k by (simp add: has_key_def)
  moreover have "Some k \<in> insert None (Some ` set
     [''run_sfc'', ''run_dism_health_restore'', ''run_chkdsk'', ''clean_temp'',
      ''clean_prefetch'', ''clean_software_distribution'', ''network_reset_advanced'',
      ''network_reset_basic'', ''open_task_manager'', ''open_device_manager'',
      ''open_services'', ''open_system_restore'', ''privacy_strict'',
      ''privacy_restore_defaults'', ''privacy_recommended''])"
    using keyword_action_id_range [of t] k by simp
  ultimately have "k \<in> set [''privacy_strict'', ''privacy_restore_defaults'',
                            ''privacy_recommended'']"
    by (auto simp: has_key_ACTIONS)
  with k ak show ?thesis by simp
qed

text \<open>
  C10: with the catalog the program builds at start, \<^verbatim>\<open>interpret_command_keyword\<close> of
  main.py returns \<^verbatim>\<open>None\<close> whenever the branch taken looks up one of the twelve
  health, cleanup, network and tools ids, because none of them is registered; a result
  other than \<^verbatim>\<open>None\<close> comes from one of the three privacy lookups, and such results
  exist ("tighten my privacy").
\<close>

theorem C10_cli_keyword_only_privacy:
  "(keyword_action_id request \<in> Some ` set
       [''run_sfc'', ''run_dism_health_restore'', ''run_chkdsk'', ''clean_temp'',
        ''clean_prefetch'', ''clean_software_distribution'', ''network_reset_advanced'',
        ''network_reset_basic'', ''open_task_manager'', ''open_device_manager'',
        ''open_services'', ''open_system_restore'']
      \<longrightarrow> interpret_command_keyword (ACTIONS st pt) request = None)
   \<and> (interpret_command_keyword (ACTIONS st pt) request = Some a
      \<longrightarrow> keyword_action_id request = Some (action_id a)
          \<and> action_id a \<in> set [''privacy_strict'', ''privacy_restore_defaults'',
                                 ''privacy_recommended''])
   \<and> list_all (\<lambda>aid. \<not> has_key (ACTIONS st pt) aid)
       [''run_sfc'', ''run_dism_health_restore'', ''run_chkdsk'', ''clean_temp'',
        ''clean_prefetch'', ''clean_software_distribution'', ''network_reset_advanced'',
        ''network_reset_basic'', ''open_task_manager'', ''open_device_manager'',
        ''open_services'', ''open_system_restore'']
   \<and> interpret_command_keyword (ACTIONS st pt) ''tighten my privacy'' \<noteq> None"
proof -
  have 1: "list_all (\<lambda>aid. \<not> has_key (ACTIONS st pt) aid)
       [''run_sfc'', ''run_dism_health_restore'', ''run_chkdsk'', ''clean_temp'',
        ''clean_prefetch'', ''clean_software_distribution'', ''network_reset_advanced'',
        ''network_reset_basic'', ''open_task_manager'', ''open_device_manager'',
        ''open_services'', ''open_system_restore'']"
    by (simp add: has_key_ACTIONS)
  have 2: "interpret_command_keyword (ACTIONS st pt) ''tighten my privacy'' \<noteq> None"
    using has_key_ACTIONS [of st pt "''privacy_recommended''"]
    by (simp add: interpret_command_keyword_def ev6 has_key_def)
  show ?thesis
    using 1 2 keyword_unregistered [of request st pt] keyword_registered [of st pt request a]
    by blast
qed

theorem C10_cli_keyword_only_privacy_witness:
  "keyword_action_id ''run sfc'' \<in> Some ` set
       [''run_sfc'', ''run_dism_health_restore'', ''run_chkdsk'', ''clean_temp'',
        ''clean_prefetch'', ''clean_software_distribution'', ''network_reset_advanced'',
        ''network_reset_basic'', ''open_task_manager'', ''open_device_manager'',
        ''open_services'', ''open_system_restore'']
   \<and> interpret_command_keyword (ACTIONS None None :: unit catalog) ''run sfc'' = None"
  using C10_cli_keyword_only_privacy [of "''run sfc''" "None :: unit py_module" None]
  by (simp add: ev7)

subsection \<open>Running steps in order\<close>

lemma final_world_Nil: "final_world [] w = w"
  by (simp add: final_world_def)

lemma final_world_Cons: "final_world (h # hs) w = final_world hs (snd (h w))"
  by (simp add: final_world_def)

lemma outcome_at_0: "outcome_at (h # hs) w 0 = fst (h w)"
  by (simp add: outcome_at_def final_world_Nil)

lemma outcome_at_Suc: "outcome_at (h # hs) w (Suc i) = outcome_at hs (snd (h w)) i"
  by (simp add: outcome_at_def final_world_Cons)

lemma join_Cons_sublist: "sublist x (join sep (x # xs))"
  by (cases xs) auto

lemma join_tail_sublist: "sublist (join sep xs) (join sep (x # xs))"
proof (cases xs)
  case Nil
  then show ?thesis by simp
next
  case (Cons y ys)
  have "sublist (join sep (y # ys)) ((x @ sep) @ join sep (y # ys))"
    by (rule sublist_append_leftI)
  with Cons show ?thesis by simp
qed

lemma join_sublist: "x \<in> set xs \<Longrightarrow> sublist x (join sep xs)"
proof (induction xs)
  case Nil
  then show ?case by simp
next
  case (Cons y ys)
  show ?case
  proof (cases "x = y")
    case True
    then show ?thesis by (simp add: join_Cons_sublist)
  next
    case False
    with Cons have "sublist x (join sep ys)" by simp
    then show ?thesis
      using join_tail_sublist [of sep ys y] sublist_order.order_trans by blast
  qed
qed

lemma run_actions_results:
  "fst (run_actions plan results lg w) = results @ result_lines plan w"
proof (induction plan arbitrary: results lg w)
  case Nil
  then show ?case by simp
next
  case (Cons a plan)
  obtain out w' where f: "func a w = (out, w')"
    by (cases "func a w")
  show ?case
  proof (cases out)
    case (Inl e)
    with f Cons.IH show ?thesis
      by (simp add: result_line_def)
  next
    case (Inr r)
    with f Cons.IH show ?thesis
      by (cases r) (simp_all add: result_line_def)
  qed
qed

lemma run_actions_world:
  "snd (snd (run_actions plan results lg w)) = final_world (map func plan) w"
proof (induction plan arbitrary: results lg w)
  case Nil
  then show ?case by (simp add: final_world_Nil)
next
  case (Cons a plan)
  obtain out w' where f: "func a w = (out, w')"
    by (cases "func a w")
  show ?case
  proof (cases out)
    case (Inl e)
    with f Cons.IH show ?thesis
      by (simp add: final_world_Cons)
  next
    case (Inr r)
    with f Cons.IH show ?thesis
      by (cases r) (simp_all add: final_world_Cons)
  qed
qed

lemma length_result_lines: "length (result_lines plan w) = length plan"
  by (induction plan arbitrary: w) auto

lemma result_lines_nth:
  "i < length plan \<Longrightarrow>
   result_lines plan w ! i = result_line (name (plan ! i)) (outcome_at (map func plan) w i)"
proof (induction plan arbitrary: i w)
  case Nil
  then show ?case by simp
next
  case (Cons a plan)
  then show ?case
    by (cases i) (simp_all add: outcome_at_0 outcome_at_Suc)
qed

lemma plan_summary_ok_run:
  "plan_summary_ok plan w (join sep (result_lines plan w))"
  unfolding plan_summary_ok_def list_all_iff
proof
  fix i
  assume "i \<in> set [0..<length plan]"
  then have i: "i < length plan" by simp
  then have "result_lines plan w ! i \<in> set (result_lines plan w)"
    by (simp add: length_result_lines)
  then show "sublist (result_line (name (plan ! i)) (outcome_at (map func plan) w i))
               (join sep (result_lines plan w))"
    using i by (simp add: result_lines_nth join_sublist)
qed

lemma run_tools_eq:
  "run_tools st names messages w =
     (messages @ tool_lines st (filter (hasattr st) names) w,
      final_world (map (getattr st) (filter (hasattr st) names)) w)"
proof (induction names arbitrary: messages w)
  case Nil
  then show ?case by (simp add: final_world_Nil)
next
  case (Cons n names)
  show ?case
  proof (cases "hasattr st n")
    case False
    with Cons.IH show ?thesis by simp
  next
    case True
    obtain out w' where f: "getattr st n w = (out, w')"
      by (cases "getattr st n w")
    show ?thesis
    proof (cases out)
      case (Inl e)
      with f True Cons.IH show ?thesis
        by (simp add: final_world_Cons tool_line_def)
    next
      case (Inr r)
      with f True Cons.IH show ?thesis
        by (cases r) (simp_all add: final_world_Cons tool_line_def)
    qed
  qed
qed

lemma tool_lines_mem:
  "i < length tools \<Longrightarrow> tool_line (tools ! i) (outcome_at (map (getattr st) tools) w i) \<noteq> [] \<Longrightarrow>
   tool_line (tools ! i) (outcome_at (map (getattr st) tools) w i) \<in> set (tool_lines st tools w)"
proof (induction tools arbitrary: i w)
  case Nil
  then show ?case by simp
next
  case (Cons n tools)
  then show ?case
    by (cases i) (simp_all add: outcome_at_0 outcome_at_Suc)
qed

lemma tool_lines_sublist:
  assumes "i < length tools"
  shows "sublist (tool_line (tools ! i) (outcome_at (map (getattr st) tools) w i))
           (join sep (tool_lines st tools w))"
proof (cases "tool_line (tools ! i) (outcome_at (map (getattr st) tools) w i) = []")
  case True
  then show ?thesis by simp
next
  case False
  then show ?thesis
    using tool_lines_mem [OF assms, of st w] by (simp add: join_sublist)
qed

lemma tool_lines_empty:
  assumes "tool_lines st tools w = []" "i < length tools"
  shows "tool_line (tools ! i) (outcome_at (map (getattr st) tools) w i) = []"
  using tool_lines_mem [OF assms(2), of st w] assms(1) by auto

lemma aggregate_ok_run:
  assumes "\<And>w. h w = (let (messages, w') = run_tools st names [] w
                       in if messages \<noteq> [] then (Inr (Some (join sep messages)), w')
                          else (Inr (Some done), w'))"
  shows "aggregate_ok st names h w"
proof (cases "tool_lines st (filter (hasattr st) names) w = []")
  case True
  then show ?thesis
    unfolding aggregate_ok_def Let_def assms run_tools_eq list_all_iff
    by (simp add: tool_lines_empty)
next
  case False
  then show ?thesis
    unfolding aggregate_ok_def Let_def assms run_tools_eq list_all_iff
    by (simp add: tool_lines_sublist)
qed

lemma interpret_command_run:
  assumes "fst (choose_actions_for_request acts g request lg) = plan" "plan \<noteq> []"
  shows "fst (interpret_command acts g request lg w) = join [CHR 0x0A] (result_lines plan w)"
    and "snd (snd (interpret_command acts g request lg w)) = final_world (map func plan) w"
proof -
  obtain lg1 where c: "choose_actions_for_request acts g request lg = (plan, lg1)"
    using assms(1) by (cases "choose_actions_for_request acts g request lg") simp
  obtain rs lg2 w2 where r: "run_actions plan [] lg1 w = (rs, lg2, w2)"
    by (cases "run_actions plan [] lg1 w")
  have "rs = result_lines plan w"
    using run_actions_results [of plan "[]" lg1 w] r by simp
  moreover have "w2 = final_world (map func plan) w"
    using run_actions_world [of plan "[]" lg1 w] r by simp
  ultimately show "fst (interpret_command acts g request lg w) =
      join [CHR 0x0A] (result_lines plan w)"
    and "snd (snd (interpret_command acts g request lg w)) = final_world (map func plan) w"
    using assms(2) c r by (simp_all add: interpret_command_def)
qed

text \<open>
  A plan executed by \<^verbatim>\<open>interpret_command\<close>, and the aggregate actions
  \<^verbatim>\<open>_cleanup_recommended\<close> and \<^verbatim>\<open>_health_full\<close>, run every step in the given order
  whatever the earlier steps did (the world at the end is the one all handlers, run one
  after the other, leave), and the combined summary contains the line of every step:
  the failure text of a step that raised, the text a step returned.
\<close>

lemma interpret_command_continues_past_failure:
  assumes "fst (choose_actions_for_request acts g request lg) = plan" and "plan \<noteq> []"
  shows "snd (snd (interpret_command acts g request lg w)) = final_world (map func plan) w
       \<and> plan_summary_ok plan w (fst (interpret_command acts g request lg w))
       \<and> aggregate_ok st [''cleanup_temp_files'', ''cleanup_prefetch'',
                          ''cleanup_windows_update_cache''] (cleanup_recommended st) v
       \<and> aggregate_ok st [''run_sfc_scan'', ''run_dism_health_scan''] (health_full st) v"
proof (intro conjI)
  show "snd (snd (interpret_command acts g request lg w)) = final_world (map func plan) w"
    using assms by (rule interpret_command_run)
  show "plan_summary_ok plan w (fst (interpret_command acts g request lg w))"
    unfolding interpret_command_run(1) [OF assms] by (rule plan_summary_ok_run)
  show "aggregate_ok st [''cleanup_temp_files'', ''cleanup_prefetch'',
          ''cleanup_windows_update_cache''] (cleanup_recommended st) v"
    by (rule aggregate_ok_run) (simp add: cleanup_recommended_def)
  show "aggregate_ok st [''run_sfc_scan'', ''run_dism_health_scan''] (health_full st) v"
    by (rule aggregate_ok_run) (simp add: health_full_def)
qed

lemma demo_chosen: "fst (choose_actions_for_request demo_catalog demo_reply ''go'' []) = demo_plan"
  by (simp add: choose_actions_for_request_def gemini_choose_action_ids_def demo_reply_def
      demo_catalog_def demo_plan_def demo_action_def has_key_def strip_def isspace_def Let_def)

lemma demo_plan_nonempty: "demo_plan \<noteq> []"
  by (simp add: demo_plan_def)

lemma demo_world: "final_world (map func demo_plan) [] = [''s1'', ''s2'', ''s3'', ''s4'']"
  by (simp add: final_world_def demo_plan_def demo_action_def demo_step_def)

lemma demo_lines:
  "plan_summary_ok demo_plan [] summary =
     (sublist ''A: one done'' summary \<and> sublist ''B: ERROR - boom'' summary \<and>
      sublist ''C: completed.'' summary \<and> sublist ''D: four done'' summary)"
  by (simp add: plan_summary_ok_def demo_plan_def demo_action_def demo_step_def
      outcome_at_def final_world_def result_line_def upt_rec [of 0] upt_rec [of 1]
      upt_rec [of 2] upt_rec [of 3] upt_rec [of 4])

lemma demo_plan_continues_past_failure:
  "fst (choose_actions_for_request demo_catalog demo_reply ''go'' []) = demo_plan
   \<and> demo_plan \<noteq> []
   \<and> snd (snd (interpret_command demo_catalog demo_reply ''go'' [] [])) =
       [''s1'', ''s2'', ''s3'', ''s4'']
   \<and> sublist ''A: one done'' (fst (interpret_command demo_catalog demo_reply ''go'' [] []))
   \<and> sublist ''B: ERROR - boom'' (fst (interpret_command demo_catalog demo_reply ''go'' [] []))
   \<and> sublist ''C: completed.'' (fst (interpret_command demo_catalog demo_reply ''go'' [] []))
   \<and> sublist ''D: four done'' (fst (interpret_command demo_catalog demo_reply ''go'' [] []))"
  using interpret_command_continues_past_failure [OF demo_chosen demo_plan_nonempty, of "[]" None "[]"]
    demo_chosen demo_plan_nonempty
  unfolding demo_world demo_lines
  by blast

subsection \<open>The free-text box of the GUI\<close>

lemma map_of_reg:
  "map_of (fst (reg aid nm d g f dg r)) =
     (map_of (fst r))(aid \<mapsto> \<lparr>action_id = aid, name = nm, description = d, group_tag = g,
                                 dangerous = dg, func = f\<rparr>)"
  by (simp add: fst_reg update_conv')

lemma network_reset_action:
  "map_of (ACTIONS st pt) ''network_reset'' =
     Some \<lparr>action_id = ''network_reset'', name = ''Reset Network Stack'',
           description =
             ''Resets Winsock, IP stack, and flushes DNS to fix common network issues.'',
           group_tag = ''network'', dangerous = True, func = network_reset st\<rparr>"
  by (simp add: ACTIONS_unfold register_builtin_actions_def map_of_reg)

lemma ev8: "fallback_selected ''reset network'' = [''network_reset'']"
  by (simp add: fallback_selected_def rule_defs lower_def lower_char_def sublist_code)

lemma strip5: "strip ''reset network'' = ''reset network''"
  by (simp add: strip_def isspace_def)

lemma reset_network_plan:
  "fst (choose_actions_for_request (ACTIONS st pt) Not_configured ''reset network'' lg) =
     [\<lparr>action_id = ''network_reset'', name = ''Reset Network Stack'',
           description =
             ''Resets Winsock, IP stack, and flushes DNS to fix common network issues.'',
           group_tag = ''network'', dangerous = True, func = network_reset st\<rparr>]"
  by (simp add: choose_actions_for_request_def gemini_choose_action_ids_def strip5 Let_def
      fallback_choose_action_ids_def ev8 has_key_ACTIONS network_reset_action)

lemma network_reset_tool:
  "network_reset (Some (tools(''reset_network_stack'' \<mapsto> h))) = h"
  by (rule ext) (simp add: network_reset_def tool_or_raise_def hasattr_def getattr_def)

text \<open>
  C2: no handler of a danger-flagged action should run before the user has confirmed.
  \<open>network_reset\<close> is flagged dangerous, and the free-text box of the GUI runs it for
  the text "reset network": \<^verbatim>\<open>_on_run_command\<close> hands the text to
  \<^verbatim>\<open>interpret_command\<close>, which calls the handler of every action of the plan. Neither
  function takes an answer from the user, and the world after the command is the one the
  tool \<^verbatim>\<open>reset_network_stack\<close> leaves.
\<close>

theorem C2_gui_runs_dangerous_unconfirmed:
  "map_option dangerous
     (get_action_by_id (ACTIONS (Some (tools(''reset_network_stack'' \<mapsto> h))) pt)
        ''network_reset'') = Some True
   \<and> snd (on_run_command (ACTIONS (Some (tools(''reset_network_stack'' \<mapsto> h))) pt)
            Not_configured ''reset network'' lg w) = snd (h w)"
proof
  show "map_option dangerous
     (get_action_by_id (ACTIONS (Some (tools(''reset_network_stack'' \<mapsto> h))) pt)
        ''network_reset'') = Some True"
    by (simp add: get_action_by_id_def network_reset_action)
  let ?acts = "ACTIONS (Some (tools(''reset_network_stack'' \<mapsto> h))) pt"
  let ?lg = "lg @ [Log_info (''> '' @ ''reset network'')]"
  have "snd (snd (interpret_command ?acts Not_configured ''reset network'' ?lg w)) =
          final_world [h] w"
    using interpret_command_run(2) [OF reset_network_plan, of _ pt ?lg w]
    by (simp add: network_reset_tool)
  then show "snd (on_run_command ?acts Not_configured ''reset network'' lg w) = snd (h w)"
    by (simp add: on_run_command_def strip5 Let_def final_world_def split_beta)
qed

subsection \<open>Registering under an existing id\<close>

lemma filter_other_ids:
  "ids_ok acts \<Longrightarrow> aid \<notin> fst ` set acts \<Longrightarrow>
   filter (\<lambda>x. action_id x = aid) (map snd acts) = []"
  unfolding ids_ok_def by (induction acts) auto

lemma filter_update_existing:
  assumes "ids_ok acts" "distinct (map fst acts)" "has_key acts aid" "action_id a = aid"
  shows "filter (\<lambda>x. action_id x = aid) (map snd (AList.update aid a acts)) = [a]"
  using assms
proof (induction acts)
  case Nil
  then show ?case by (simp add: has_key_def)
next
  case (Cons p acts)
  obtain k v where p: "p = (k, v)" by (cases p)
  show ?case
  proof (cases "k = aid")
    case True
    have "ids_ok acts" using Cons.prems(1) by (simp add: ids_ok_def)
    moreover have "aid \<notin> fst ` set acts" using Cons.prems(2) p True by auto
    ultimately have "filter (\<lambda>x. action_id x = aid) (map snd acts) = []"
      by (rule filter_other_ids)
    with p True Cons.prems(4) show ?thesis by simp
  next
    case False
    have 1: "ids_ok acts" using Cons.prems(1) by (simp add: ids_ok_def)
    have 2: "distinct (map fst acts)" using Cons.prems(2) by simp
    have 3: "has_key acts aid" using Cons.prems(3) p False by (simp add: has_key_def)
    have "action_id v = k" using Cons.prems(1) p by (simp add: ids_ok_def)
    with False p Cons.IH [OF 1 2 3 Cons.prems(4)] show ?thesis by simp
  qed
qed

lemma distinct_update: "distinct (map fst acts) \<Longrightarrow> distinct (map fst (AList.update k v acts))"
  by (simp add: distinct_update)

text \<open>
  C8: \<^verbatim>\<open>register_action\<close> returns the action built from its arguments, whatever they
  are. Registering under an id the registry already has replaces the entry: the lookup of
  the id returns the new action, \<^verbatim>\<open>list_actions()\<close> has exactly one entry with that id,
  the new one, no id is added or lost, and the log has the overwrite warning.
\<close>

theorem C8_register_replaces:
  "fst (register_action aid nm descr grp fn dang (acts, lg)) =
     \<lparr>action_id = aid, name = nm, description = descr, group_tag = grp, dangerous = dang,
      func = fn\<rparr>
   \<and> (ids_ok acts \<and> distinct (map fst acts) \<and> has_key acts aid \<longrightarrow>
        (let action = fst (register_action aid nm descr grp fn dang (acts, lg));
             acts' = fst (snd (register_action aid nm descr grp fn dang (acts, lg)));
             lg' = snd (snd (register_action aid nm descr grp fn dang (acts, lg)))
         in get_action_by_id acts' aid = Some action
          \<and> filter (\<lambda>a. action_id a = aid) (list_actions acts') = [action]
          \<and> map fst acts' = map fst acts
          \<and> ids_ok acts' \<and> distinct (map fst acts')
          \<and> Log_warning (''Overwriting existing action with id '' @ quoted aid) \<in> set lg'))"
proof (intro conjI impI)
  let ?a = "\<lparr>action_id = aid, name = nm, description = descr, group_tag = grp,
             dangerous = dang, func = fn\<rparr>"
  show "fst (register_action aid nm descr grp fn dang (acts, lg)) = ?a"
    by (simp add: register_action_def Let_def)
  assume h: "ids_ok acts \<and> distinct (map fst acts) \<and> has_key acts aid"
  have r: "register_action aid nm descr grp fn dang (acts, lg) =
     (?a, AList.update aid ?a acts,
      lg @ [Log_warning (''Overwriting existing action with id '' @ quoted aid),
            Log_debug (''Registered action '' @ quoted aid @ '' ('' @ nm @ '')'')])"
    using h by (simp add: register_action_def Let_def)
  have f: "filter (\<lambda>a. action_id a = aid) (list_actions (AList.update aid ?a acts)) = [?a]"
    using h by (simp add: list_actions_def filter_sort filter_update_existing)
  have k: "map fst (AList.update aid ?a acts) = map fst acts"
    using h by (simp add: update_keys has_key_keys)
  show "let action = fst (register_action aid nm descr grp fn dang (acts, lg));
             acts' = fst (snd (register_action aid nm descr grp fn dang (acts, lg)));
             lg' = snd (snd (register_action aid nm descr grp fn dang (acts, lg)))
         in get_action_by_id acts' aid = Some action
          \<and> filter (\<lambda>a. action_id a = aid) (list_actions acts') = [action]
          \<and> map fst acts' = map fst acts
          \<and> ids_ok acts' \<and> distinct (map fst acts')
          \<and> Log_warning (''Overwriting existing action with id '' @ quoted aid) \<in> set lg'"
    unfolding r Let_def fst_conv snd_conv
    using h f k by (simp add: get_action_by_id_def update_conv' ids_ok_update)
qed

lemma distinct_ACTIONS: "distinct (map fst (ACTIONS st pt))"
  unfolding ACTIONS_keys by simp

theorem C8_register_replaces_witness:
  "ids_ok (ACTIONS None None :: unit catalog)
   \<and> distinct (map fst (ACTIONS None None :: unit catalog))
   \<and> has_key (ACTIONS None None :: unit catalog) ''cleanup_temp''
   \<and> get_action_by_id
        (fst (snd (register_action ''cleanup_temp'' ''New'' ''new'' ''cleanup''
                    (\<lambda>w. (Inr None, w)) True (ACTIONS None None :: unit catalog, []))))
        ''cleanup_temp''
      = Some \<lparr>action_id = ''cleanup_temp'', name = ''New'', description = ''new'',
               group_tag = ''cleanup'', dangerous = True, func = (\<lambda>w. (Inr None, w))\<rparr>
   \<and> filter (\<lambda>a. action_id a = ''cleanup_temp'')
        (list_actions (fst (snd (register_action ''cleanup_temp'' ''New'' ''new'' ''cleanup''
                    (\<lambda>w. (Inr None, w)) True (ACTIONS None None :: unit catalog, [])))))
      = [\<lparr>action_id = ''cleanup_temp'', name = ''New'', description = ''new'',
               group_tag = ''cleanup'', dangerous = True, func = (\<lambda>w. (Inr None, w))\<rparr>]"
proof -
  have h: "ids_ok (ACTIONS None None :: unit catalog)
     \<and> distinct (map fst (ACTIONS None None :: unit catalog))
     \<and> has_key (ACTIONS None None :: unit catalog) ''cleanup_temp''"
    by (simp add: ids_ok_ACTIONS distinct_ACTIONS has_key_ACTIONS)
  show ?thesis
    using h C8_register_replaces [of "''cleanup_temp''" "''New''" "''new''" "''cleanup''"
        "\<lambda>w. (Inr None, w)" True "ACTIONS None None :: unit catalog" "[]"]
    unfolding Let_def by (simp del: filter.simps)
qed

subsection \<open>Loading plugins\<close>

lemma registry_extends_refl: "registry_extends r r"
  by (simp add: registry_extends_def)

lemma registry_extends_trans:
  "registry_extends r1 r2 \<Longrightarrow> registry_extends r2 r3 \<Longrightarrow> registry_extends r1 r3"
  unfolding registry_extends_def by blast

lemma registry_extends_logged: "registry_extends r (logged entry r)"
  by (auto simp: registry_extends_def logged_def)

lemma has_key_update: "has_key (AList.update k v acts) x \<longleftrightarrow> x = k \<or> has_key acts x"
  by (simp add: has_key_def update_conv')

lemma fst_facade:
  "fst (facade_register_action (aid, nm, d, g, f, dg) r) =
     AList.update aid \<lparr>action_id = aid, name = nm, description = d, group_tag = g,
                      dangerous = dg, func = f\<rparr> (fst r)"
  by (cases r) (simp add: facade_register_action_def register_action_def Let_def)

lemma snd_facade:
  "set (snd r) \<subseteq> set (snd (facade_register_action c r))"
  by (cases r; cases c) (auto simp: facade_register_action_def register_action_def Let_def)

lemma registry_extends_facade: "registry_extends r (facade_register_action c r)"
proof -
  obtain aid nm d g f dg where c: "c = (aid, nm, d, g, f, dg)"
    by (cases c)
  show ?thesis
    using snd_facade [of r c]
    by (simp add: registry_extends_def c fst_facade has_key_update ids_ok_update)
qed

lemma facade_key: "has_key (fst (facade_register_action c r)) (fst c)"
  by (cases c) (simp add: fst_facade has_key_update)

lemma registry_extends_run_register: "registry_extends r (run_register calls r)"
proof (induction calls arbitrary: r)
  case Nil
  then show ?case by (simp add: registry_extends_refl)
next
  case (Cons c calls)
  show ?case
    using registry_extends_facade [of r c] Cons.IH [of "facade_register_action c r"]
    by (simp add: registry_extends_trans)
qed

lemma run_register_keys:
  "c \<in> set calls \<Longrightarrow> has_key (fst (run_register calls r)) (fst c)"
proof (induction calls arbitrary: r)
  case Nil
  then show ?case by simp
next
  case (Cons x calls)
  show ?case
  proof (cases "c = x")
    case True
    have "has_key (fst (facade_register_action x r)) (fst x)"
      by (rule facade_key)
    then show ?thesis
      using registry_extends_run_register [of "facade_register_action x r" calls] True
      by (simp add: registry_extends_def)
  next
    case False
    with Cons show ?thesis by simp
  qed
qed

lemma registry_extends_logged_run:
  "registry_extends r (logged entry (run_register calls r))"
  using registry_extends_run_register registry_extends_logged by (rule registry_extends_trans)

lemma registry_extends_load: "registry_extends r (load_plugin_modules pn ms r)"
proof (induction ms arbitrary: r)
  case Nil
  then show ?case by (simp add: registry_extends_refl)
next
  case (Cons m ms)
  note ext = registry_extends_trans registry_extends_logged registry_extends_run_register
  show ?case
  proof (cases "startswith (mod_name m) ''_''")
    case True
    with Cons.IH show ?thesis by simp
  next
    case False
    show ?thesis
    proof (cases "imported m")
      case (Inl e)
      with False show ?thesis
        using Cons.IH ext by (simp add: Let_def) blast
    next
      case (Inr reg)
      show ?thesis
      proof (cases reg)
        case No_register
        with False Inr Cons.IH show ?thesis by simp
      next
        case (Register calls raised)
        with False Inr show ?thesis
          using Cons.IH ext by (cases raised) (simp_all add: Let_def, blast+)
      qed
    qed
  qed
qed

lemma registry_extends_load_plugins: "registry_extends r (load_plugins package_name pkg r)"
  by (auto simp: load_plugins_def registry_extends_logged registry_extends_load
      split: option.splits plugins_package.splits)

lemma listedI: "ids_ok acts \<Longrightarrow> has_key acts k \<Longrightarrow> listed acts k"
proof -
  assume ok: "ids_ok acts" and "has_key acts k"
  then obtain a where a: "map_of acts k = Some a"
    by (auto simp: has_key_def)
  then have "a \<in> set (map snd acts)"
    by (force dest: map_of_SomeD)
  moreover have "action_id a = k"
    using ok a by (rule ids_ok_map_of)
  ultimately show ?thesis
    by (auto simp: listed_def list_actions_def list_ex_iff)
qed

lemma plugin_handled_mono:
  assumes "registry_extends r r'" "ids_ok (fst r)" "plugin_handled pn m r"
  shows "plugin_handled pn m r'"
proof -
  have ok: "ids_ok (fst r')"
    using assms by (simp add: registry_extends_def)
  have keys: "\<And>k. has_key (fst r) k \<Longrightarrow> has_key (fst r') k \<and> listed (fst r') k"
    using assms(1) ok by (simp add: registry_extends_def listedI)
  have logs: "\<And>e. e \<in> set (snd r) \<Longrightarrow> e \<in> set (snd r')"
    using assms(1) by (auto simp: registry_extends_def)
  show ?thesis
    using assms(3) keys logs
    by (auto simp: plugin_handled_def list_all_iff
        split: sum.splits plugin_register.splits option.splits)
qed

lemma ids_ok_extends: "registry_extends r r' \<Longrightarrow> ids_ok (fst r) \<Longrightarrow> ids_ok (fst r')"
  by (simp add: registry_extends_def)

lemma in_logged: "entry \<in> set (snd (logged entry r))"
  by (simp add: logged_def)

lemma fst_logged: "fst (logged entry r) = fst r"
  by (simp add: logged_def)

lemma load_plugin_modules_handled:
  assumes "ids_ok (fst r)"
  shows "list_all (\<lambda>m. startswith (mod_name m) ''_''
                        \<or> plugin_handled pn m (load_plugin_modules pn ms r)) ms"
  using assms
proof (induction ms arbitrary: r)
  case Nil
  then show ?case by simp
next
  case (Cons m ms)
  define r1 where "r1 =
    (if startswith (mod_name m) ''_'' then r
     else case imported m of
        Inl e \<Rightarrow> logged (Log_warning (''Failed to import plugin module ''
                   @ quoted (pn @ ''.'' @ mod_name m) @ '': '' @ e)) r
      | Inr No_register \<Rightarrow> r
      | Inr (Register calls raised) \<Rightarrow>
          (case raised of
             None \<Rightarrow> logged (Log_info (''Plugin '' @ quoted (pn @ ''.'' @ mod_name m)
                                        @ '' registered successfully.'')) (run_register calls r)
           | Some e \<Rightarrow> logged (Log_warning (''Plugin '' @ quoted (pn @ ''.'' @ mod_name m)
                                        @ '' register() failed: '' @ e)) (run_register calls r)))"
  have step: "load_plugin_modules pn (m # ms) r = load_plugin_modules pn ms r1"
    unfolding r1_def
    by (simp add: Let_def split: sum.splits plugin_register.splits option.splits)
  have ext1: "registry_extends r r1"
    unfolding r1_def
    by (simp add: registry_extends_refl registry_extends_logged registry_extends_logged_run
        split: sum.splits plugin_register.splits option.splits)
  have ok1: "ids_ok (fst r1)"
    using ext1 Cons.prems by (rule ids_ok_extends)
  have ext2: "registry_extends r1 (load_plugin_modules pn ms r1)"
    by (rule registry_extends_load)
  have head: "startswith (mod_name m) ''_'' \<or> plugin_handled pn m r1"
  proof (cases "startswith (mod_name m) ''_''")
    case True
    then show ?thesis by simp
  next
    case False
    have "plugin_handled pn m r1"
    proof (cases "imported m")
      case (Inl e)
      with False show ?thesis
        by (simp add: plugin_handled_def r1_def in_logged)
    next
      case (Inr reg)
      show ?thesis
      proof (cases reg)
        case No_register
        with Inr show ?thesis by (simp add: plugin_handled_def)
      next
        case (Register calls raised)
        have k: "\<And>c. c \<in> set calls \<Longrightarrow> has_key (fst (run_register calls r)) (fst c)"
          by (rule run_register_keys)
        have "ids_ok (fst (run_register calls r))"
          using registry_extends_run_register Cons.prems by (rule ids_ok_extends)
        with k have "\<And>c. c \<in> set calls \<Longrightarrow> has_key (fst (run_register calls r)) (fst c)
                       \<and> listed (fst (run_register calls r)) (fst c)"
          by (simp add: listedI)
        with False Inr Register show ?thesis
          by (cases raised)
            (simp_all add: plugin_handled_def r1_def in_logged fst_logged list_all_iff)
      qed
    qed
    then show ?thesis by simp
  qed
  have "startswith (mod_name m) ''_'' \<or> plugin_handled pn m (load_plugin_modules pn ms r1)"
    using head plugin_handled_mono [OF ext2 ok1] by blast
  with Cons.IH [OF ok1] show ?case
    unfolding step by simp
qed

text \<open>
  C7: loading plugins never loses an id or a log record of the registry it starts from
  (built-in and previously registered actions stay), whatever the modules do; and every
  module that is not private is handled whatever the modules before and after it did: a
  failed import and a raising \<^verbatim>\<open>register()\<close> are logged as warnings, and every action a
  module registered is in the catalog and in \<^verbatim>\<open>list_actions()\<close>.
\<close>

theorem C7_plugin_failures_isolated:
  assumes "ids_ok (fst r)"
  shows "registry_extends r (load_plugins package_name pkg r)
       \<and> list_all (\<lambda>m. startswith (mod_name m) ''_''
                        \<or> plugin_handled pn m (load_plugins (Some pn) (Package ms) r)) ms"
proof
  show "registry_extends r (load_plugins package_name pkg r)"
    by (rule registry_extends_load_plugins)
  show "list_all (\<lambda>m. startswith (mod_name m) ''_''
                        \<or> plugin_handled pn m (load_plugins (Some pn) (Package ms) r)) ms"
    using load_plugin_modules_handled [OF assms, of pn ms] by (simp add: load_plugins_def)
qed

theorem C7_plugin_failures_isolated_witness:
  "ids_ok (fst (([], []) :: string list registry))
   \<and> listed (fst (load_plugins (Some ''plugins'') (Package demo_plugins) ([], []))) ''good_one''
   \<and> Log_warning (''Plugin '' @ quoted ''plugins.bad'' @ '' register() failed: boom'')
       \<in> set (snd (load_plugins (Some ''plugins'') (Package demo_plugins) ([], [])))"
proof -
  have h: "ids_ok (fst (([], []) :: string list registry))"
    by (simp add: ids_ok_def)
  show ?thesis
    using h C7_plugin_failures_isolated [OF h, of None Package_not_found "''plugins''"
        demo_plugins]
    by (simp add: demo_plugins_def plugin_handled_def startswith_def)
qed

subsection \<open>The privacy backup\<close>

lemma backup_setting_keeps:
  "map_of (BACKUP s) k = Some v \<Longrightarrow> map_of (BACKUP (backup_setting api setting s)) k = Some v"
  by (auto simp: backup_setting_def Let_def update_conv')

lemma backup_setting_first:
  "map_of (BACKUP s) (setting_key setting) = None \<Longrightarrow>
   map_of (BACKUP (backup_setting api setting s)) (setting_key setting) =
     Some (read_reg_value api (winreg_state s) (setting_key setting))"
  by (simp add: backup_setting_def Let_def update_conv')

lemma backup_setting_distinct:
  "distinct (map fst (BACKUP s)) \<Longrightarrow> distinct (map fst (BACKUP (backup_setting api setting s)))"
  by (simp add: backup_setting_def Let_def distinct_update)

lemma BACKUP_apply_setting:
  "BACKUP (snd (apply_setting api setting s)) = BACKUP (backup_setting api setting s)"
  by (simp add: apply_setting_def Let_def split: prod.splits option.splits)

lemma apply_settings_loop_keeps:
  "map_of (BACKUP s) k = Some v \<Longrightarrow>
   map_of (BACKUP (snd (apply_settings_loop api settings messages s))) k = Some v"
proof (induction settings arbitrary: messages s)
  case Nil
  then show ?case by simp
next
  case (Cons x settings)
  obtain out s' where a: "apply_setting api x s = (out, s')"
    by (cases "apply_setting api x s")
  have "map_of (BACKUP s') k = Some v"
    using BACKUP_apply_setting [of api x s] a backup_setting_keeps [OF Cons.prems] by simp
  then show ?case
    using a Cons.IH by (cases out) simp_all
qed

lemma apply_settings_loop_distinct:
  "distinct (map fst (BACKUP s)) \<Longrightarrow>
   distinct (map fst (BACKUP (snd (apply_settings_loop api settings messages s))))"
proof (induction settings arbitrary: messages s)
  case Nil
  then show ?case by simp
next
  case (Cons x settings)
  obtain out s' where a: "apply_setting api x s = (out, s')"
    by (cases "apply_setting api x s")
  have "distinct (map fst (BACKUP s'))"
    using BACKUP_apply_setting [of api x s] a backup_setting_distinct [OF Cons.prems] by simp
  then show ?case
    using a Cons.IH by (cases out) simp_all
qed

lemma BACKUP_apply_settings:
  "BACKUP (snd (apply_settings api settings s)) =
     BACKUP (snd (apply_settings_loop api settings [] s))"
  by (simp add: apply_settings_def split_beta)

lemma BACKUP_run_call:
  "BACKUP (snd (run_call api c s)) =
     (case c of
        Apply_recommended \<Rightarrow> BACKUP (snd (apply_settings_loop api RECOMMENDED_SETTINGS [] s))
      | Apply_strict \<Rightarrow> BACKUP (snd (apply_settings_loop api STRICT_SETTINGS [] s))
      | Restore_defaults \<Rightarrow> BACKUP s)"
  by (cases c)
    (simp_all add: apply_recommended_privacy_profile_def apply_strict_privacy_profile_def
      restore_privacy_defaults_def apply_settings_def split_beta)

lemma run_call_keeps:
  "map_of (BACKUP s) k = Some v \<Longrightarrow> map_of (BACKUP (snd (run_call api c s))) k = Some v"
  unfolding BACKUP_run_call by (cases c) (simp_all add: apply_settings_loop_keeps)

lemma run_call_distinct:
  "distinct (map fst (BACKUP s)) \<Longrightarrow> distinct (map fst (BACKUP (snd (run_call api c s))))"
  unfolding BACKUP_run_call by (cases c) (simp_all add: apply_settings_loop_distinct)

lemma run_calls_keeps:
  "map_of (BACKUP s) k = Some v \<Longrightarrow> map_of (BACKUP (run_calls api calls s)) k = Some v"
  by (induction calls arbitrary: s) (simp_all add: run_call_keeps)

lemma run_calls_distinct:
  "distinct (map fst (BACKUP s)) \<Longrightarrow> distinct (map fst (BACKUP (run_calls api calls s)))"
  by (induction calls arbitrary: s) (simp_all add: run_call_distinct)

text \<open>
  C9: the backup is first-write-wins. Applying a setting whose key has no entry stores
  the value read from the registry before the write; an entry, once there, keeps its
  value through every later application of settings and every sequence of calls of the
  three public functions of the module; and no key ever gets a second entry.
\<close>

theorem C9_backup_first_write_wins:
  "(map_of (BACKUP s) (setting_key setting) = None \<longrightarrow>
      map_of (BACKUP (snd (apply_setting api setting s))) (setting_key setting) =
        Some (read_reg_value api (winreg_state s) (setting_key setting)))
   \<and> (map_of (BACKUP s) k = Some v \<longrightarrow>
        map_of (BACKUP (snd (apply_setting api setting s))) k = Some v
        \<and> map_of (BACKUP (snd (apply_settings api settings s))) k = Some v
        \<and> map_of (BACKUP (run_calls api calls s)) k = Some v)
   \<and> (distinct (map fst (BACKUP s)) \<longrightarrow> distinct (map fst (BACKUP (run_calls api calls s))))"
  by (simp add: BACKUP_apply_setting backup_setting_first backup_setting_keeps
      BACKUP_apply_settings apply_settings_loop_keeps run_calls_keeps run_calls_distinct)

lemma demo_read:
  "read_reg_value demo_winreg (winreg_state demo_state) (setting_key demo_setting) = Some 1"
  by (simp add: read_reg_value_def demo_winreg_def demo_state_def)

theorem C9_backup_first_write_wins_witness:
  "map_of (BACKUP demo_state) (setting_key demo_setting) = None
   \<and> map_of (BACKUP (snd (apply_setting demo_winreg demo_setting demo_state)))
        (setting_key demo_setting) = Some (Some 1)
   \<and> map_of (BACKUP (run_calls demo_winreg [Apply_recommended, Apply_strict, Restore_defaults]
                       (snd (apply_setting demo_winreg demo_setting demo_state))))
        (setting_key demo_setting) = Some (Some 1)"
proof -
  have h: "map_of (BACKUP demo_state) (setting_key demo_setting) = None"
    by (simp add: demo_state_def)
  have first: "map_of (BACKUP (snd (apply_setting demo_winreg demo_setting demo_state)))
        (setting_key demo_setting) = Some (Some 1)"
    using h C9_backup_first_write_wins [where s = demo_state and setting = demo_setting
        and api = demo_winreg]
    by (simp add: demo_read)
  show ?thesis
    using h first
      C9_backup_first_write_wins [where api = demo_winreg
        and s = "snd (apply_setting demo_winreg demo_setting demo_state)"
        and k = "setting_key demo_setting" and v = "Some 1"
        and calls = "[Apply_recommended, Apply_strict, Restore_defaults]"]
    by blast
qed

subsection \<open>The loop of the CLI\<close>

lemma str_nat_0: "str_nat 0 = ''0''"
  by code_simp

lemma py_join_Action:
  "py_join sep (PyAction a # rest) =
     Inl ''TypeError: sequence item 0: expected str instance, Action found''"
  by (simp add: py_join_def str_nat_0 del: str_nat.simps)

lemma main_turn_plan_raises:
  assumes "strip line \<noteq> []"
    and "lower (strip line) \<notin> set [''exit'', ''quit'', ''help'', ''commands'']"
    and "fst (choose_actions_for_request acts g (strip line)
                (log_event (''User input: '' @ strip line) (cli_log s))) \<noteq> []"
  shows "fst (main_turn acts g line s) =
           Uncaught ''TypeError: sequence item 0: expected str instance, Action found''"
    and "world (snd (main_turn acts g line s)) = world s"
    and "answers (snd (main_turn acts g line s)) = answers s"
proof -
  obtain actions lg where c: "choose_actions_for_request acts g (strip line)
      (log_event (''User input: '' @ strip line) (cli_log s)) = (actions, lg)"
    by (cases "choose_actions_for_request acts g (strip line)
      (log_event (''User input: '' @ strip line) (cli_log s))")
  with assms(3) obtain a rest where a: "actions = a # rest"
    by (cases actions) auto
  have t: "main_turn acts g line s =
      (Uncaught ''TypeError: sequence item 0: expected str instance, Action found'',
       s\<lparr>cli_log := lg\<rparr>)"
    using assms(1,2) c a by (simp add: main_turn_def Let_def py_join_Action)
  show "fst (main_turn acts g line s) =
           Uncaught ''TypeError: sequence item 0: expected str instance, Action found''"
    and "world (snd (main_turn acts g line s)) = world s"
    and "answers (snd (main_turn acts g line s)) = answers s"
    by (simp_all add: t)
qed

lemma strip6: "strip ''run sfc and dism'' = ''run sfc and dism''"
  by (simp add: strip_def isspace_def)

lemma lower6: "lower ''run sfc and dism'' = ''run sfc and dism''"
  by (simp add: lower_def lower_char_def)

lemma ev9: "fallback_selected ''run sfc and dism'' = [''health_sfc'', ''health_dism'']"
  by (simp add: fallback_selected_def rule_defs lower_def lower_char_def sublist_code)

lemma sfc_dism_plan:
  "map action_id (fst (choose_actions_for_request (ACTIONS st pt) Not_configured
      ''run sfc and dism'' lg)) = [''health_sfc'', ''health_dism'']"
  by (simp add: plan_ids_fallback ids_ok_ACTIONS strip6 fallback_choose_action_ids_def ev9
        has_key_ACTIONS)

text \<open>
  C6: every multi-action plan execution should run its steps in order and go on past a
  failing step. The loop of the CLI runs none: for "run sfc and dism" the router returns
  the two-step plan \<open>health_sfc\<close>, \<open>health_dism\<close>, and the loop then joins the
  \<^verbatim>\<open>Action\<close> objects of the plan as if they were names, which raises \<^verbatim>\<open>TypeError\<close>
  outside any \<^verbatim>\<open>try\<close>: the program ends before the first step, with the machine
  untouched and no answer asked, whatever lines follow.
\<close>

theorem C6_cli_plan_raises_before_first_step:
  "map action_id (fst (choose_actions_for_request (ACTIONS st pt) Not_configured
      ''run sfc and dism'' lg)) = [''health_sfc'', ''health_dism'']
   \<and> fst (main (ACTIONS st pt) Not_configured (''run sfc and dism'' # more_lines) s) =
       Uncaught ''TypeError: sequence item 0: expected str instance, Action found''
   \<and> world (snd (main (ACTIONS st pt) Not_configured (''run sfc and dism'' # more_lines) s))
       = world s
   \<and> answers (snd (main (ACTIONS st pt) Not_configured (''run sfc and dism'' # more_lines) s))
       = answers s"
proof -
  let ?lg = "log_event (''User input: '' @ ''run sfc and dism'') (cli_log s)"
  have 1: "strip ''run sfc and dism'' \<noteq> []"
    by (simp add: strip6)
  have 2: "lower (strip ''run sfc and dism'') \<notin> set [''exit'', ''quit'', ''help'', ''commands'']"
    by (simp add: strip6 lower6)
  have "map action_id (fst (choose_actions_for_request (ACTIONS st pt) Not_configured
          ''run sfc and dism'' ?lg)) \<noteq> []"
    unfolding sfc_dism_plan by simp
  then have 3: "fst (choose_actions_for_request (ACTIONS st pt) Not_configured
          (strip ''run sfc and dism'')
          (log_event (''User input: '' @ strip ''run sfc and dism'') (cli_log s))) \<noteq> []"
    by (simp add: strip6)
  note t = main_turn_plan_raises [OF 1 2 3]
  obtain s' where s': "main_turn (ACTIONS st pt) Not_configured ''run sfc and dism'' s =
      (Uncaught ''TypeError: sequence item 0: expected str instance, Action found'', s')"
    using t(1) by (cases "main_turn (ACTIONS st pt) Not_configured ''run sfc and dism'' s") simp
  have m: "main (ACTIONS st pt) Not_configured (''run sfc and dism'' # more_lines) s =
      (Uncaught ''TypeError: sequence item 0: expected str instance, Action found'', s')"
    by (simp add: s')
  show ?thesis
    using t(2,3) unfolding m s' by (simp add: sfc_dism_plan)
qed

end
